theory Spec2Isabelle
  imports Complex_Main "HOL-Library.Word" "HOL-Library.Multiset"
begin

section \<open>Structured point buffer (sensor\_msgs PointCloud2 as used by clouds.h)\<close>

type_synonym u8 = "8 word"
type_synonym u32 = "32 word"

text \<open>
  \<^verbatim>\<open>typedef int Index;\<close> (types.h). Values of the 32-bit signed type are carried as
  integers; every conversion to an unsigned 32-bit operand is written out with
  \<open>word_of_int\<close>, every conversion back with \<open>sint\<close> or \<open>uint\<close>.
\<close>

type_synonym Index = int

definition INVALID_INDEX :: Index where
  "INVALID_INDEX = 2 ^ 31 - 1"

text \<open>The element types of a point field (the \<open>datatype\<close> tag of a PointField).\<close>

datatype ElemType = INT8 | UINT8 | INT16 | UINT16 | INT32 | UINT32 | FLOAT32 | FLOAT64

text \<open>
  Modelled from the spec: \<^verbatim>\<open>point_field_traits.h\<close> (PointFieldTraits<T>::value_size) is
  not among the sources. The spec's data model gives the closed set of element types;
  the size of each is the size in bytes of the C++ type of that name.
\<close>

fun value_size :: "ElemType \<Rightarrow> u32" where
  "value_size INT8 = 1"
| "value_size UINT8 = 1"
| "value_size INT16 = 2"
| "value_size UINT16 = 2"
| "value_size INT32 = 4"
| "value_size UINT32 = 4"
| "value_size FLOAT32 = 4"
| "value_size FLOAT64 = 8"

record PointField =
  name :: string
  offset :: u32
  elem_type :: ElemType
  count :: u32

text \<open>The message header (time stamp and frame id) is copied as a whole and never inspected.\<close>

type_synonym Header = "nat \<times> string"

record PointCloud2 =
  header :: Header
  height :: u32
  width :: u32
  fields' :: "PointField list"
  is_bigendian :: bool
  point_step :: u32
  row_step :: u32
  data :: "u8 list"
  is_dense :: bool

text \<open>\<^verbatim>\<open>num_points\<close>: \<open>size_t(cloud.height) * cloud.width\<close>, a 64-bit product of two 32-bit values.\<close>

definition num_points :: "PointCloud2 \<Rightarrow> nat" where
  "num_points cloud = unat (height cloud) * unat (width cloud)"

definition reset_fields :: "PointCloud2 \<Rightarrow> PointCloud2" where
  "reset_fields cloud = cloud\<lparr>fields' := [], point_step := 0\<rparr>"

text \<open>
  \<^verbatim>\<open>append_field<T>(name, count, cloud)\<close>. The template argument is passed as the element
  type. \<open>point_step\<close> is a \<open>uint32_t\<close>: the addition and the product wrap modulo \<open>2^32\<close>.
\<close>

definition append_field :: "ElemType \<Rightarrow> string \<Rightarrow> u32 \<Rightarrow> PointCloud2 \<Rightarrow> PointCloud2" where
  "append_field T nm cnt cloud =
     (let field = \<lparr>name = nm, offset = point_step cloud, elem_type = T, count = cnt\<rparr>
      in cloud\<lparr>fields' := fields' cloud @ [field],
                point_step := point_step cloud + cnt * value_size T\<rparr>)"

definition append_position_fields :: "ElemType \<Rightarrow> PointCloud2 \<Rightarrow> PointCloud2" where
  "append_position_fields T cloud =
     append_field T ''z'' 1 (append_field T ''y'' 1 (append_field T ''x'' 1 cloud))"

definition resize_cloud :: "PointCloud2 \<Rightarrow> u32 \<Rightarrow> u32 \<Rightarrow> PointCloud2" where
  "resize_cloud cloud h w =
     (let rs = w * point_step cloud; n = unat (h * rs)
      in cloud\<lparr>height := h, width := w, row_step := rs,
                data := take n (data cloud) @ replicate (n - length (data cloud)) 0\<rparr>)"

text \<open>A sequence of \<open>append_field\<close> calls, in call order, after \<open>reset_fields\<close>.\<close>

type_synonym field_decl = "ElemType \<times> string \<times> u32"

definition append_fields :: "field_decl list \<Rightarrow> PointCloud2 \<Rightarrow> PointCloud2" where
  "append_fields decls cloud =
     foldl (\<lambda>c (T, nm, cnt). append_field T nm cnt c) (reset_fields cloud) decls"

text \<open>The bytes one record spends on a field: \<open>count * value_size\<close>.\<close>

definition field_bytes :: "PointField \<Rightarrow> u32" where
  "field_bytes f = count f * value_size (elem_type f)"

definition decl_field :: "u32 \<Rightarrow> field_decl \<Rightarrow> PointField" where
  "decl_field off d = (case d of (T, nm, cnt) \<Rightarrow>
     \<lparr>name = nm, offset = off, elem_type = T, count = cnt\<rparr>)"

text \<open>The same size as a natural number, without the 32-bit wrap-around.\<close>

definition field_nbytes :: "PointField \<Rightarrow> nat" where
  "field_nbytes f = unat (count f) * unat (value_size (elem_type f))"

definition decl_bytes :: "field_decl \<Rightarrow> u32" where
  "decl_bytes d = (case d of (T, nm, cnt) \<Rightarrow> cnt * value_size T)"

text \<open>
  Outcomes that are not a return. \<open>AssertionFailed\<close> is a failed \<^verbatim>\<open>assert\<close>.
  \<open>OutOfBounds\<close> marks an access outside a vector's storage: the source performs it
  unchecked, so in C++ it is undefined behaviour, not an exception a caller can catch.
\<close>

datatype error = AssertionFailed | OutOfBounds

text \<open>\<^verbatim>\<open>std::vector<uint8_t>::resize(n)\<close>: keeps the first \<open>n\<close> bytes, zero-fills what is new.\<close>

definition std_resize :: "u8 list \<Rightarrow> nat \<Rightarrow> u8 list" where
  "std_resize v n = take n v @ replicate (n - length v) 0"

text \<open>
  \<^verbatim>\<open>std::copy(src + first, src + last, dst + d_first)\<close> on byte vectors. It is defined
  only when \<open>[first, last)\<close> is a range of the source and the destination has room.
\<close>

definition std_copy :: "u8 list \<Rightarrow> nat \<Rightarrow> nat \<Rightarrow> u8 list \<Rightarrow> nat \<Rightarrow> error + u8 list" where
  "std_copy src first0 last0 dst d_first =
     (if first0 \<le> last0 \<and> last0 \<le> length src \<and> d_first + (last0 - first0) \<le> length dst
      then Inr (take d_first dst @ take (last0 - first0) (drop first0 src) @
                drop (d_first + (last0 - first0)) dst)
      else Inl OutOfBounds)"

text \<open>
  The loop of \<^verbatim>\<open>copy_points\<close> (lines 476-481). \<open>*it\<close> and the counter \<open>i\<close> are of type
  \<open>Index\<close> (the repository's \<^verbatim>\<open>Indices\<close> is \<^verbatim>\<open>std::vector<Index>\<close>), \<open>point_step\<close> is a
  \<open>uint32_t\<close>: the three products are computed in unsigned 32-bit arithmetic and wrap.
\<close>

fun copy_loop :: "PointCloud2 \<Rightarrow> u32 \<Rightarrow> Index list \<Rightarrow> Index \<Rightarrow> u8 list \<Rightarrow> error + u8 list" where
  "copy_loop input out_step [] i out_data = Inr out_data"
| "copy_loop input out_step (it # its) i out_data =
     (case std_copy (data input)
             (unat (word_of_int it * point_step input))
             (unat (word_of_int (it + 1) * point_step input))
             out_data
             (unat (word_of_int i * out_step)) of
        Inl e \<Rightarrow> Inl e
      | Inr out_data' \<Rightarrow> copy_loop input out_step its (i + 1) out_data')"

text \<open>
  \<^verbatim>\<open>copy_points(input, indices, output)\<close>. \<open>output.width\<close> is the size of the index
  container cast to \<open>uint32_t\<close>; the data size is a \<open>size_t\<close> product. \<open>input\<close> and
  \<open>output\<close> are distinct objects.
\<close>

definition copy_points :: "PointCloud2 \<Rightarrow> Index list \<Rightarrow> PointCloud2 \<Rightarrow> error + PointCloud2" where
  "copy_points input indices output =
     (let w = (word_of_nat (length indices) :: u32);
          out = output\<lparr>header := header input, height := 1, width := w,
                  fields' := fields' input, is_bigendian := is_bigendian input,
                  point_step := point_step input, row_step := w * point_step input,
                  data := std_resize (data output) (length indices * unat (point_step input)),
                  is_dense := is_dense input\<rparr>
      in case copy_loop input (point_step out) indices 0 (data out) of
           Inl e \<Rightarrow> Inl e
         | Inr d \<Rightarrow> Inr (out\<lparr>data := d\<rparr>))"

text \<open>The bytes of record \<open>i\<close>: \<open>point_step\<close> bytes from \<open>i * point_step\<close>.\<close>

definition point_record :: "PointCloud2 \<Rightarrow> nat \<Rightarrow> u8 list" where
  "point_record cloud i =
     take (unat (point_step cloud)) (drop (i * unat (point_step cloud)) (data cloud))"

text \<open>
  The storage invariant of a buffer: the data holds \<open>height\<close> rows of \<open>row_step\<close> bytes,
  and a row has room for \<open>width\<close> records.
\<close>

definition wf_cloud :: "PointCloud2 \<Rightarrow> bool" where
  "wf_cloud cloud \<longleftrightarrow>
     length (data cloud) = unat (height cloud) * unat (row_step cloud) \<and>
     unat (width cloud) * unat (point_step cloud) \<le> unat (row_step cloud)"

text \<open>A default-constructed message, and the declarations of \<open>append_position_fields<float>\<close>.\<close>

definition empty_cloud :: PointCloud2 where
  "empty_cloud = \<lparr>header = (0, []), height = 0, width = 0, fields' = [], is_bigendian = False,
     point_step = 0, row_step = 0, data = [], is_dense = False\<rparr>"

definition position_decls :: "field_decl list" where
  "position_decls = [(FLOAT32, ''x'', 1), (FLOAT32, ''y'', 1), (FLOAT32, ''z'', 1)]"

text \<open>
  A one-point buffer whose row has one byte of padding, and a one-row buffer of three
  two-byte records.
\<close>

definition padded_cloud :: PointCloud2 where
  "padded_cloud = \<lparr>header = (0, []), height = 1, width = 1,
     fields' = [\<lparr>name = ''a'', offset = 0, elem_type = UINT8, count = 1\<rparr>],
     is_bigendian = False, point_step = 1, row_step = 2, data = [7, 9], is_dense = True\<rparr>"

definition row_cloud :: PointCloud2 where
  "row_cloud = \<lparr>header = (0, []), height = 1, width = 3,
     fields' = [\<lparr>name = ''a'', offset = 0, elem_type = UINT8, count = 2\<rparr>],
     is_bigendian = False, point_step = 2, row_step = 6, data = [1, 2, 3, 4, 5, 6],
     is_dense = True\<rparr>"

text \<open>The descriptors a sequence of declarations yields when the first one starts at \<open>off\<close>.\<close>

fun layout :: "u32 \<Rightarrow> field_decl list \<Rightarrow> PointField list" where
  "layout off [] = []"
| "layout off (d # ds) = decl_field off d # layout (off + decl_bytes d) ds"

section \<open>Floating-point values\<close>

text \<open>
  \<^verbatim>\<open>typedef float Value;\<close> (types.h). A value is finite, an infinity or a NaN. The special
  values follow IEEE 754, which is what \<^verbatim>\<open>std::isfinite\<close>, the comparisons and a division by
  zero observe. A finite value is carried as the real number it stands for: rounding and
  overflow to infinity are not modelled, and zero has no sign (a zero divisor counts as
  \<open>+0\<close>, which is what the conversion of the integer 0 gives). No theorem below rests on the
  numeric value of a finite result, except the two closed evaluations that say so.
\<close>

datatype Value = Finite real | PInf | NInf | NaN

text \<open>\<^verbatim>\<open>std::isfinite\<close>.\<close>

fun isfinite :: "Value \<Rightarrow> bool" where
  "isfinite (Finite a) = True"
| "isfinite v = False"

text \<open>Negation, addition, subtraction, multiplication and division of \<open>float\<close>s.\<close>

fun fneg :: "Value \<Rightarrow> Value" where
  "fneg (Finite a) = Finite (- a)"
| "fneg PInf = NInf"
| "fneg NInf = PInf"
| "fneg NaN = NaN"

fun fadd :: "Value \<Rightarrow> Value \<Rightarrow> Value" where
  "fadd NaN v = NaN"
| "fadd v NaN = NaN"
| "fadd (Finite a) (Finite b) = Finite (a + b)"
| "fadd PInf NInf = NaN"
| "fadd NInf PInf = NaN"
| "fadd PInf v = PInf"
| "fadd v PInf = PInf"
| "fadd NInf v = NInf"
| "fadd v NInf = NInf"

definition fsub :: "Value \<Rightarrow> Value \<Rightarrow> Value" where
  "fsub a b = fadd a (fneg b)"

fun fmul :: "Value \<Rightarrow> Value \<Rightarrow> Value" where
  "fmul NaN v = NaN"
| "fmul v NaN = NaN"
| "fmul (Finite a) (Finite b) = Finite (a * b)"
| "fmul (Finite a) PInf = (if a = 0 then NaN else if 0 < a then PInf else NInf)"
| "fmul (Finite a) NInf = (if a = 0 then NaN else if 0 < a then NInf else PInf)"
| "fmul PInf (Finite b) = (if b = 0 then NaN else if 0 < b then PInf else NInf)"
| "fmul NInf (Finite b) = (if b = 0 then NaN else if 0 < b then NInf else PInf)"
| "fmul PInf PInf = PInf"
| "fmul NInf NInf = PInf"
| "fmul PInf NInf = NInf"
| "fmul NInf PInf = NInf"

fun fdiv :: "Value \<Rightarrow> Value \<Rightarrow> Value" where
  "fdiv NaN v = NaN"
| "fdiv v NaN = NaN"
| "fdiv (Finite a) (Finite b) =
     (if b = 0 then (if a = 0 then NaN else if 0 < a then PInf else NInf) else Finite (a / b))"
| "fdiv (Finite a) v = Finite 0"
| "fdiv PInf (Finite b) = (if 0 \<le> b then PInf else NInf)"
| "fdiv NInf (Finite b) = (if 0 \<le> b then NInf else PInf)"
| "fdiv v w = NaN"

text \<open>The comparisons \<open><\<close> and \<open>==\<close>: false whenever an operand is a NaN.\<close>

fun fless :: "Value \<Rightarrow> Value \<Rightarrow> bool" where
  "fless NaN v = False"
| "fless v NaN = False"
| "fless (Finite a) (Finite b) = (a < b)"
| "fless v NInf = False"
| "fless NInf v = True"
| "fless PInf v = False"
| "fless v PInf = True"

fun feq :: "Value \<Rightarrow> Value \<Rightarrow> bool" where
  "feq NaN v = False"
| "feq v NaN = False"
| "feq a b = (a = b)"

text \<open>\<^verbatim>\<open>std::abs\<close>, \<^verbatim>\<open>std::min\<close> (\<open>b < a ? b : a\<close>) and \<^verbatim>\<open>std::round\<close> (halves away from zero).\<close>

fun fabs :: "Value \<Rightarrow> Value" where
  "fabs (Finite a) = Finite \<bar>a\<bar>"
| "fabs NaN = NaN"
| "fabs v = PInf"

definition fmin :: "Value \<Rightarrow> Value \<Rightarrow> Value" where
  "fmin a b = (if fless b a then b else a)"

fun fround :: "Value \<Rightarrow> Value" where
  "fround (Finite a) = Finite (of_int (if 0 \<le> a then \<lfloor>a + 1 / 2\<rfloor> else \<lceil>a - 1 / 2\<rceil>))"
| "fround v = v"

text \<open>The implicit conversion of an \<open>Index\<close> (or a difference of two) to \<open>float\<close>.\<close>

definition of_index :: "Index \<Rightarrow> Value" where
  "of_index i = Finite (of_int i)"

section \<open>Spherical projection model (class SphericalProjection of clouds.h)\<close>

text \<open>
  A position \<open>(x, y, z)\<close>, and the \<^verbatim>\<open>typedef std::pair<Value, Value> Model\<close> of
  \<^verbatim>\<open>fit_robust\<close>: a pair \<open>(start, step)\<close>.
\<close>

type_synonym Vec3 = "Value \<times> Value \<times> Value"

type_synonym Model = "Value \<times> Value"

text \<open>
  What clouds.h calls and does not define. \<^verbatim>\<open>geom.h\<close> (\<open>azimuth\<close>, \<open>elevation\<close>,
  \<open>cartesian_to_spherical\<close>, \<open>spherical_to_cartesian\<close>) is not among the sources;
  \<open>acos\<close> is \<^verbatim>\<open>std::acos\<close>, \<open>normalized\<close> is Eigen's \<^verbatim>\<open>normalize\<close>, \<open>std_sort\<close> is
  \<^verbatim>\<open>std::sort\<close> with the comparator of \<^verbatim>\<open>fit_robust\<close>, which leaves the order of
  candidates with equal steps open. They are parameters of the model: every theorem
  holds for all of them, under the hypotheses on them that it states.
\<close>

record Externals =
  azimuth :: "Value \<Rightarrow> Value \<Rightarrow> Value"
  elevation :: "Value \<Rightarrow> Value \<Rightarrow> Value \<Rightarrow> Value"
  cartesian_to_spherical :: "Value \<Rightarrow> Value \<Rightarrow> Value \<Rightarrow> Value \<times> Value \<times> Value"
  spherical_to_cartesian :: "Value \<Rightarrow> Value \<Rightarrow> Value \<Rightarrow> Vec3"
  acos :: "Value \<Rightarrow> Value"
  normalized :: "Vec3 \<Rightarrow> Vec3"
  std_sort :: "Model list \<Rightarrow> Model list"

text \<open>
  The six members of the class (\<open>azimuth_start_\<close>, ..., \<open>height_\<close>, \<open>width_\<close>). A member
  function takes the object and returns it, updated, with its result.
\<close>

record SphericalProjection =
  azimuth_start :: Value
  azimuth_step :: Value
  elevation_start :: Value
  elevation_step :: Value
  height' :: u32
  width' :: u32

text \<open>
  The fits and \<^verbatim>\<open>check\<close> read the buffer only through
  \<^verbatim>\<open>sensor_msgs::PointCloud2ConstIterator<float> x_begin(cloud, "x")\<close>, of which \<open>x_it[0]\<close>,
  \<open>x_it[1]\<close>, \<open>x_it[2]\<close> are the position of the point the iterator stands on. The model
  takes \<open>x_begin\<close> as the list of these triples in storage order, next to the cloud, of
  which the functions read \<open>height\<close> and \<open>width\<close>.

  A point is valid when \<open>std::isfinite\<close> holds of the three (lines 183, 270, 329).
\<close>

definition finite_point :: "Vec3 \<Rightarrow> bool" where
  "finite_point p = (case p of (x, y, z) \<Rightarrow> isfinite x \<and> isfinite y \<and> isfinite z)"

text \<open>
  \<open>(x_begin + i)[0..2]\<close>. Outside the buffer the read is unchecked in the source
  (undefined behaviour); the model marks it \<open>OutOfBounds\<close>.
\<close>

definition read_at :: "'a list \<Rightarrow> Index \<Rightarrow> error + 'a" where
  "read_at xs i = (if 0 \<le> i \<and> nat i < length xs then Inr (xs ! nat i) else Inl OutOfBounds)"

text \<open>Sequencing: the first outcome that is not a return ends the computation.\<close>

definition and_then :: "error + 'a \<Rightarrow> ('a \<Rightarrow> error + 'b) \<Rightarrow> error + 'b" where
  "and_then r f = (case r of Inl e \<Rightarrow> Inl e | Inr v \<Rightarrow> f v)"

text \<open>
  \<open>i / cloud.width\<close> and \<open>i % cloud.width\<close>: an \<open>int\<close> and a \<open>uint32_t\<close>, so both are
  unsigned 32-bit operations. They are evaluated only for the index of a point of the
  buffer, so the width is not zero there.
\<close>

definition row_of :: "u32 \<Rightarrow> Index \<Rightarrow> u32" where
  "row_of w i = word_of_int i div w"

definition col_of :: "u32 \<Rightarrow> Index \<Rightarrow> u32" where
  "col_of w i = word_of_int i mod w"

text \<open>\<^verbatim>\<open>const Index n_points = cloud.height * cloud.width;\<close>: a 32-bit product, read as an \<open>int\<close>.\<close>

definition n_points_of :: "PointCloud2 \<Rightarrow> Index" where
  "n_points_of cloud = sint (height cloud * width cloud)"

text \<open>The four indices \<open>i_r0\<close>, \<open>i_r1\<close>, \<open>i_c0\<close>, \<open>i_c1\<close> of \<^verbatim>\<open>fit_fast\<close>.\<close>

record Extrema =
  i_r0 :: Index
  i_r1 :: Index
  i_c0 :: Index
  i_c1 :: Index

text \<open>Lines 273-280: the four updates, in order, for a valid point \<open>i\<close>.\<close>

definition update_extrema :: "u32 \<Rightarrow> Index \<Rightarrow> Extrema \<Rightarrow> Extrema" where
  "update_extrema w i e =
     (let e1 = (if i_r0 e = INVALID_INDEX \<or> row_of w i < row_of w (i_r0 e) then e\<lparr>i_r0 := i\<rparr> else e);
          e2 = (if i_r1 e1 = INVALID_INDEX \<or> row_of w i > row_of w (i_r1 e1) then e1\<lparr>i_r1 := i\<rparr> else e1);
          e3 = (if i_c0 e2 = INVALID_INDEX \<or> col_of w i < col_of w (i_c0 e2) then e2\<lparr>i_c0 := i\<rparr> else e2);
          e4 = (if i_c1 e3 = INVALID_INDEX \<or> col_of w i > col_of w (i_c1 e3) then e3\<lparr>i_c1 := i\<rparr> else e3)
      in e4)"

text \<open>The loop of lines 269-283, from \<open>i\<close> on, with its \<^verbatim>\<open>continue\<close> and its \<^verbatim>\<open>break\<close>.\<close>

function scan :: "Vec3 list \<Rightarrow> u32 \<Rightarrow> Index \<Rightarrow> Index \<Rightarrow> Extrema \<Rightarrow> error + Extrema" where
  "scan x_begin w n_points i e =
     (if i < n_points then
        (case read_at x_begin i of
           Inl err \<Rightarrow> Inl err
         | Inr p \<Rightarrow>
             if \<not> finite_point p then scan x_begin w n_points (i + 1) e
             else
               let e' = update_extrema w i e
               in if i_r0 e' < i_r1 e' \<and> i_c0 e' < i_c1 e' then Inr e'
                  else scan x_begin w n_points (i + 1) e')
      else Inr e)"
  by pat_completeness auto

termination
  by (relation "measure (\<lambda>(x_begin, w, n_points, i, e). nat (n_points - i))") auto

declare scan.simps [simp del]

text \<open>
  \<^verbatim>\<open>fit_fast\<close> (lines 257-314). The two \<^verbatim>\<open>assert\<close>s come first; the result is the returned
  \<open>bool\<close> with the object. The log line is not modelled.
\<close>

definition fit_fast ::
  "Externals \<Rightarrow> PointCloud2 \<Rightarrow> Vec3 list \<Rightarrow> SphericalProjection \<Rightarrow> error + bool \<times> SphericalProjection" where
  "fit_fast X cloud x_begin m =
     (if \<not> (1 \<le> height cloud \<and> 1 \<le> width cloud) then Inl AssertionFailed
      else
        and_then (scan x_begin (width cloud) (n_points_of cloud) 0
                    \<lparr>i_r0 = INVALID_INDEX, i_r1 = INVALID_INDEX,
                     i_c0 = INVALID_INDEX, i_c1 = INVALID_INDEX\<rparr>) (\<lambda>e.
        if i_r0 e = INVALID_INDEX then Inr (False, m)
        else
          and_then (read_at x_begin (i_r0 e)) (\<lambda>(x_r0, y_r0, z_r0).
          and_then (read_at x_begin (i_r1 e)) (\<lambda>(x_r1, y_r1, z_r1).
          and_then (read_at x_begin (i_c0 e)) (\<lambda>(x_c0, y_c0, z_c0).
          and_then (read_at x_begin (i_c1 e)) (\<lambda>(x_c1, y_c1, z_c1).
            let m1 = m\<lparr>height' := height cloud, width' := width cloud\<rparr>;
                elevation_0 = elevation X x_r0 y_r0 z_r0;
                elevation_1 = elevation X x_r1 y_r1 z_r1;
                r0 = sint (row_of (width' m1) (i_r0 e));
                r1 = sint (row_of (width' m1) (i_r1 e));
                el_step = fdiv (fsub elevation_1 elevation_0) (of_index (r1 - r0));
                m2 = m1\<lparr>elevation_step := el_step\<rparr>;
                m3 = m2\<lparr>elevation_start := fsub elevation_0 (fmul (of_index r0) (elevation_step m2))\<rparr>;
                azimuth_0 = azimuth X x_c0 y_c0;
                azimuth_1 = azimuth X x_c1 y_c1;
                c0 = sint (col_of (width' m3) (i_c0 e));
                c1 = sint (col_of (width' m3) (i_c1 e));
                az_step = fdiv (fsub azimuth_1 azimuth_0) (of_index (c1 - c0));
                m4 = m3\<lparr>azimuth_step := az_step\<rparr>;
                m5 = m4\<lparr>azimuth_start := fsub azimuth_0 (fmul (of_index c0) (azimuth_step m4))\<rparr>
            in Inr (True, m5)))))))"

text \<open>Lines 325-332: the indices of the valid points, in storage order.\<close>

function collect_valid :: "Vec3 list \<Rightarrow> Index \<Rightarrow> Index \<Rightarrow> Index list \<Rightarrow> error + Index list" where
  "collect_valid x_begin n_points i valid =
     (if i < n_points then
        (case read_at x_begin i of
           Inl err \<Rightarrow> Inl err
         | Inr p \<Rightarrow>
             if \<not> finite_point p then collect_valid x_begin n_points (i + 1) valid
             else collect_valid x_begin n_points (i + 1) (valid @ [i]))
      else Inr valid)"
  by pat_completeness auto

termination
  by (relation "measure (\<lambda>(x_begin, n_points, i, valid). nat (n_points - i))") auto

declare collect_valid.simps [simp del]

text \<open>Lines 355-358 and 364-367: the candidate of a pair of points for each axis.\<close>

definition az_model :: "Externals \<Rightarrow> Vec3 \<Rightarrow> Vec3 \<Rightarrow> Index \<Rightarrow> Index \<Rightarrow> Model" where
  "az_model X p0 p1 c0 c1 =
     (case (p0, p1) of ((x0, y0, z0), (x1, y1, z1)) \<Rightarrow>
        let az0 = azimuth X x0 y0;
            az1 = azimuth X x1 y1;
            az_step = fdiv (fsub az1 az0) (of_index (c1 - c0))
        in (fsub az0 (fmul (of_index c0) az_step), az_step))"

definition el_model :: "Externals \<Rightarrow> Vec3 \<Rightarrow> Vec3 \<Rightarrow> Index \<Rightarrow> Index \<Rightarrow> Model" where
  "el_model X p0 p1 r0 r1 =
     (case (p0, p1) of ((x0, y0, z0), (x1, y1, z1)) \<Rightarrow>
        let el0 = elevation X x0 y0 z0;
            el1 = elevation X x1 y1 z1;
            el_step = fdiv (fsub el1 el0) (of_index (r1 - r0))
        in (fsub el0 (fmul (of_index r0) el_step), el_step))"

text \<open>
  The loop of lines 348-373 over adjacent pairs \<open>valid[i]\<close>, \<open>valid[i + 1]\<close>, with the
  candidates collected so far, and its \<^verbatim>\<open>break\<close> at 25 candidates of each kind.
\<close>

fun pair_models ::
  "Externals \<Rightarrow> u32 \<Rightarrow> Vec3 list \<Rightarrow> Index list \<Rightarrow> Model list \<Rightarrow> Model list \<Rightarrow>
     error + Model list \<times> Model list" where
  "pair_models X w x_begin (v0 # v1 # valid) az_models el_models =
     (let c0 = sint (col_of w v0);
          c1 = sint (col_of w v1);
          r0 = sint (row_of w v0);
          r1 = sint (row_of w v1)
      in
        and_then (if c0 \<noteq> c1
                  then and_then (read_at x_begin v0) (\<lambda>p0. and_then (read_at x_begin v1) (\<lambda>p1.
                         Inr (az_models @ [az_model X p0 p1 c0 c1])))
                  else Inr az_models) (\<lambda>az_models'.
        and_then (if r0 \<noteq> r1
                  then and_then (read_at x_begin v0) (\<lambda>p0. and_then (read_at x_begin v1) (\<lambda>p1.
                         Inr (el_models @ [el_model X p0 p1 r0 r1])))
                  else Inr el_models) (\<lambda>el_models'.
        if 25 \<le> length az_models' \<and> 25 \<le> length el_models' then Inr (az_models', el_models')
        else pair_models X w x_begin (v1 # valid) az_models' el_models')))"
| "pair_models X w x_begin valid az_models el_models = Inr (az_models, el_models)"

text \<open>The comparator \<^verbatim>\<open>comp\<close> of lines 342-344: by the step, the second component.\<close>

definition comp_step :: "Model \<Rightarrow> Model \<Rightarrow> bool" where
  "comp_step a b = fless (snd a) (snd b)"

text \<open>
  \<^verbatim>\<open>fit_robust\<close> (lines 316-404). Lines 335-337 draw a seed from \<^verbatim>\<open>std::random_device\<close>
  inside the call and shuffle \<open>valid\<close> with it: the function has no parameter for a seed or
  a generator. \<open>g\<close> is the rearrangement that this call's shuffle performs; it is an input
  of the model because it is not determined by the arguments of the call.
\<close>

definition fit_robust ::
  "Externals \<Rightarrow> (Index list \<Rightarrow> Index list) \<Rightarrow> PointCloud2 \<Rightarrow> Vec3 list \<Rightarrow> SphericalProjection \<Rightarrow>
     error + bool \<times> SphericalProjection" where
  "fit_robust X g cloud x_begin m =
     (if \<not> (1 \<le> height cloud \<and> 1 \<le> width cloud) then Inl AssertionFailed
      else
        and_then (collect_valid x_begin (n_points_of cloud) 0 []) (\<lambda>valid.
        and_then (pair_models X (width cloud) x_begin (g valid) [] []) (\<lambda>(az_models, el_models).
        if az_models = [] \<or> el_models = [] then Inr (False, m)
        else
          let az_sorted = std_sort X az_models;
              m1 = m\<lparr>azimuth_start := fst (az_sorted ! (length az_sorted div 2))\<rparr>;
              m2 = m1\<lparr>azimuth_step := snd (az_sorted ! (length az_sorted div 2))\<rparr>;
              el_sorted = std_sort X el_models;
              m3 = m2\<lparr>elevation_start := fst (el_sorted ! (length el_sorted div 2))\<rparr>;
              m4 = m3\<lparr>elevation_step := snd (el_sorted ! (length el_sorted div 2))\<rparr>;
              m5 = m4\<lparr>height' := height cloud, width' := width cloud\<rparr>
          in Inr (True, m5))))"

text \<open>\<^verbatim>\<open>fit\<close> (lines 406-408).\<close>

definition fit ::
  "Externals \<Rightarrow> (Index list \<Rightarrow> Index list) \<Rightarrow> PointCloud2 \<Rightarrow> Vec3 list \<Rightarrow> SphericalProjection \<Rightarrow>
     error + bool \<times> SphericalProjection" where
  "fit X g cloud x_begin m = fit_robust X g cloud x_begin m"

text \<open>\<^verbatim>\<open>unproject\<close> (lines 410-415) and \<^verbatim>\<open>project\<close> (lines 417-423).\<close>

definition unproject :: "Externals \<Rightarrow> SphericalProjection \<Rightarrow> Value \<Rightarrow> Value \<Rightarrow> Vec3" where
  "unproject X m r c =
     (let az = fadd (azimuth_start m) (fmul c (azimuth_step m));
          el = fadd (elevation_start m) (fmul r (elevation_step m))
      in spherical_to_cartesian X az el (Finite 1))"

definition project :: "Externals \<Rightarrow> SphericalProjection \<Rightarrow> Vec3 \<Rightarrow> Value \<times> Value" where
  "project X m p =
     (case p of (x, y, z) \<Rightarrow>
        case cartesian_to_spherical X x y z of (az, el, radius) \<Rightarrow>
          (fdiv (fsub el (elevation_start m)) (elevation_step m),
           fdiv (fsub az (azimuth_start m)) (azimuth_step m)))"

text \<open>\<^verbatim>\<open>pt.dot(pt_model)\<close>.\<close>

definition dot :: "Vec3 \<Rightarrow> Vec3 \<Rightarrow> Value" where
  "dot a b = (case (a, b) of ((ax, ay, az), (bx, by, bz)) \<Rightarrow>
     fadd (fadd (fmul ax bx) (fmul ay by)) (fmul az bz))"

text \<open>
  \<^verbatim>\<open>check\<close> (lines 168-228). What it reports is the level of its last log line and the
  mean residual \<open>residual_sum / n\<close> (the conversion to degrees in the message is not
  modelled). The loop visits the cells row by row and advances \<open>x_it\<close> once per cell;
  the code after the unconditional \<^verbatim>\<open>continue\<close> of line 202 is never run.
\<close>

datatype Severity = WARN | DEBUG

fun check_loop ::
  "Externals \<Rightarrow> SphericalProjection \<Rightarrow> Vec3 list \<Rightarrow> (Index \<times> Index) list \<Rightarrow> Index \<Rightarrow>
     Value \<times> Index \<Rightarrow> error + Value \<times> Index" where
  "check_loop X m x_begin [] x_it acc = Inr acc"
| "check_loop X m x_begin ((r, c) # cells) x_it (residual_sum, n) =
     and_then (read_at x_begin x_it) (\<lambda>p.
       check_loop X m x_begin cells (x_it + 1)
         (if \<not> finite_point p then (residual_sum, n)
          else
            case project X m p of (r_model, c_model) \<Rightarrow>
              if feq (of_index r) (fround r_model) \<and> feq (of_index c) (fround c_model)
              then (residual_sum, n)
              else
                let pt = normalized X p;
                    pt_model = unproject X m (of_index r) (of_index c);
                    residual = acos X (dot pt pt_model)
                in if isfinite residual then (fadd residual_sum residual, n + 1)
                   else (residual_sum, n)))"

definition grid_cells :: "u32 \<Rightarrow> u32 \<Rightarrow> (Index \<times> Index) list" where
  "grid_cells h w = List.product (map int [0..<unat h]) (map int [0..<unat w])"

definition check ::
  "Externals \<Rightarrow> SphericalProjection \<Rightarrow> PointCloud2 \<Rightarrow> Vec3 list \<Rightarrow>
     error + bool \<times> SphericalProjection \<times> Severity \<times> Value" where
  "check X m cloud x_begin =
     (if \<not> (height' m = height cloud \<and> width' m = width cloud) then Inl AssertionFailed
      else
        and_then (check_loop X m x_begin (grid_cells (height' m) (width' m)) 0 (Finite 0, 0))
          (\<lambda>(residual_sum, n).
             let mean_residual = fdiv residual_sum (of_index n)
             in if fless (fdiv (fmin (fabs (azimuth_step m)) (fabs (elevation_step m))) (Finite 2))
                     mean_residual
                then Inr (True, m, WARN, mean_residual)
                else Inr (True, m, DEBUG, mean_residual)))"

section \<open>Notions used in the statements\<close>

text \<open>The index of a valid point of the buffer, and the list of them in storage order.\<close>

definition valid_index :: "Vec3 list \<Rightarrow> Index \<Rightarrow> Index \<Rightarrow> bool" where
  "valid_index x_begin n_points k \<longleftrightarrow> 0 \<le> k \<and> k < n_points \<and> finite_point (x_begin ! nat k)"

definition valid_indices :: "Vec3 list \<Rightarrow> Index \<Rightarrow> Index list" where
  "valid_indices x_begin n_points = filter (\<lambda>k. finite_point (x_begin ! nat k)) [0..n_points - 1]"

text \<open>
  What the scan keeps true: either no index is set and no point before \<open>i\<close> is valid,
  or all four are indices of valid points.
\<close>

definition scan_inv :: "Vec3 list \<Rightarrow> Index \<Rightarrow> Index \<Rightarrow> Extrema \<Rightarrow> bool" where
  "scan_inv x_begin n i e \<longleftrightarrow>
     (i_r0 e = INVALID_INDEX \<and> i_r1 e = INVALID_INDEX \<and> i_c0 e = INVALID_INDEX \<and>
      i_c1 e = INVALID_INDEX \<and> (\<forall>k. k < i \<longrightarrow> \<not> valid_index x_begin n k)) \<or>
     (valid_index x_begin n (i_r0 e) \<and> valid_index x_begin n (i_r1 e) \<and>
      valid_index x_begin n (i_c0 e) \<and> valid_index x_begin n (i_c1 e))"

text \<open>
  The buffers the fits are meant for: the two \<^verbatim>\<open>assert\<close>s hold, the number of points fits
  an \<open>Index\<close>, and the iterator has a position for every point.
\<close>

definition fit_input :: "PointCloud2 \<Rightarrow> Vec3 list \<Rightarrow> bool" where
  "fit_input cloud x_begin \<longleftrightarrow>
     1 \<le> height cloud \<and> 1 \<le> width cloud \<and> num_points cloud < 2 ^ 31 \<and>
     length x_begin = num_points cloud"

text \<open>
  Sorted by step: no later candidate has a smaller step than an earlier one. \<open>sorts\<close>
  is the contract of \<^verbatim>\<open>std::sort\<close>: a rearrangement that is sorted.
\<close>

definition sorted_by_step :: "Model list \<Rightarrow> bool" where
  "sorted_by_step s = sorted_wrt (\<lambda>a b. \<not> comp_step b a) s"

definition sorts :: "(Model list \<Rightarrow> Model list) \<Rightarrow> bool" where
  "sorts srt \<longleftrightarrow> (\<forall>xs. mset (srt xs) = mset xs \<and> sorted_by_step (srt xs))"

text \<open>The contract of \<^verbatim>\<open>std::shuffle\<close>: the result is a rearrangement of the argument.\<close>

definition is_shuffle :: "(Index list \<Rightarrow> Index list) \<Rightarrow> bool" where
  "is_shuffle g \<longleftrightarrow> (\<forall>xs. mset (g xs) = mset xs)"

section \<open>Instances for the closed evaluations\<close>

text \<open>A sort by \<open>comp_step\<close> (insertion sort), as an instance of \<open>std_sort\<close>.\<close>

fun insert_model :: "Model \<Rightarrow> Model list \<Rightarrow> Model list" where
  "insert_model a [] = [a]"
| "insert_model a (b # bs) = (if comp_step a b then a # b # bs else b # insert_model a bs)"

definition insertion_sort :: "Model list \<Rightarrow> Model list" where
  "insertion_sort xs = foldr insert_model xs []"

text \<open>A position with a NaN among its coordinates.\<close>

definition nan_point :: "Vec3 \<Rightarrow> bool" where
  "nan_point p = (case p of (x, y, z) \<Rightarrow> x = NaN \<or> y = NaN \<or> z = NaN)"

text \<open>
  Modelled from the spec: \<^verbatim>\<open>geom.h\<close> is not among the sources. The spec calls its
  functions elementary trigonometric conversions between Cartesian and spherical
  coordinates; clouds.h documents the azimuth as the angle in the xy plane, positive
  from x to y, and the elevation as the angle from the xy plane to the point. These
  are the usual formulas, on finite values, in exact arithmetic. They are used in closed
  evaluations only.
\<close>

definition atan2 :: "real \<Rightarrow> real \<Rightarrow> real" where
  "atan2 y x =
     (if 0 < x then arctan (y / x)
      else if x < 0 then (if 0 \<le> y then arctan (y / x) + pi else arctan (y / x) - pi)
      else if 0 < y then pi / 2
      else if y < 0 then - pi / 2
      else 0)"

fun geom_azimuth :: "Value \<Rightarrow> Value \<Rightarrow> Value" where
  "geom_azimuth (Finite x) (Finite y) = Finite (atan2 y x)"
| "geom_azimuth x y = NaN"

fun geom_elevation :: "Value \<Rightarrow> Value \<Rightarrow> Value \<Rightarrow> Value" where
  "geom_elevation (Finite x) (Finite y) (Finite z) = Finite (atan2 z (sqrt (x * x + y * y)))"
| "geom_elevation x y z = NaN"

fun geom_cartesian_to_spherical :: "Value \<Rightarrow> Value \<Rightarrow> Value \<Rightarrow> Value \<times> Value \<times> Value" where
  "geom_cartesian_to_spherical (Finite x) (Finite y) (Finite z) =
     (Finite (atan2 y x), Finite (atan2 z (sqrt (x * x + y * y))),
      Finite (sqrt (x * x + y * y + z * z)))"
| "geom_cartesian_to_spherical x y z = (NaN, NaN, NaN)"

fun geom_spherical_to_cartesian :: "Value \<Rightarrow> Value \<Rightarrow> Value \<Rightarrow> Vec3" where
  "geom_spherical_to_cartesian (Finite a) (Finite e) (Finite r) =
     (Finite (r * cos e * cos a), Finite (r * cos e * sin a), Finite (r * sin e))"
| "geom_spherical_to_cartesian a e r = (NaN, NaN, NaN)"

text \<open>
  Modelled from the spec: \<^verbatim>\<open>std::acos\<close> and Eigen's \<^verbatim>\<open>normalize\<close> on finite values, in
  exact arithmetic.
\<close>

fun geom_acos :: "Value \<Rightarrow> Value" where
  "geom_acos (Finite a) = (if \<bar>a\<bar> \<le> 1 then Finite (arccos a) else NaN)"
| "geom_acos v = NaN"

fun geom_normalized :: "Vec3 \<Rightarrow> Vec3" where
  "geom_normalized (Finite x, Finite y, Finite z) =
     (let n = sqrt (x * x + y * y + z * z)
      in if n = 0 then (Finite x, Finite y, Finite z) else (Finite (x / n), Finite (y / n), Finite (z / n)))"
| "geom_normalized p = (NaN, NaN, NaN)"

definition ideal_externals :: Externals where
  "ideal_externals = \<lparr>azimuth = geom_azimuth, elevation = geom_elevation,
     cartesian_to_spherical = geom_cartesian_to_spherical,
     spherical_to_cartesian = geom_spherical_to_cartesian,
     acos = geom_acos, normalized = geom_normalized, std_sort = insertion_sort\<rparr>"

text \<open>
  Buffers of which only the extent matters, four positions of a 2 x 2 buffer, four
  positions without a valid point, two valid positions, and two objects.
\<close>

definition grid :: "u32 \<Rightarrow> u32 \<Rightarrow> PointCloud2" where
  "grid h w = empty_cloud\<lparr>height := h, width := w\<rparr>"

definition grid_points :: "Vec3 list" where
  "grid_points = [(Finite 1, Finite 0, Finite 0), (Finite 1, Finite 1, Finite 0),
                  (Finite 1, Finite 0, Finite 1), (Finite 0, Finite 1, Finite 1)]"

definition uncalibrated :: SphericalProjection where
  "uncalibrated = \<lparr>azimuth_start = NaN, azimuth_step = NaN, elevation_start = NaN,
     elevation_step = NaN, height' = 0, width' = 0\<rparr>"

text \<open>Two rearrangements a shuffle can perform: none, and exchanging the two halves of four indices.\<close>

definition swap_halves :: "Index list \<Rightarrow> Index list" where
  "swap_halves v = drop 2 v @ take 2 v"

definition keep_order :: "Index list \<Rightarrow> Index list" where
  "keep_order v = v"

definition nan_points :: "Vec3 list" where
  "nan_points = replicate 4 (NaN, NaN, NaN)"

definition column_points :: "Vec3 list" where
  "column_points = [(Finite 1, Finite 0, Finite 0), (Finite 1, Finite 0, Finite 1)]"

definition fitted :: SphericalProjection where
  "fitted = \<lparr>azimuth_start = Finite 0, azimuth_step = Finite (pi / 4),
     elevation_start = Finite 0, elevation_step = Finite (pi / 4), height' = 2, width' = 2\<rparr>"

section \<open>Schema packing\<close>

lemma foldl_append_field_step:
  "point_step (foldl (\<lambda>c (T, nm, cnt). append_field T nm cnt c) c0 decls) =
     point_step c0 + sum_list (map decl_bytes decls)"
  by (induction decls arbitrary: c0)
     (auto simp: append_field_def decl_bytes_def Let_def add.assoc)

lemma foldl_append_field_fields:
  "fields' (foldl (\<lambda>c (T, nm, cnt). append_field T nm cnt c) c0 decls) =
     fields' c0 @ layout (point_step c0) decls"
  by (induction decls arbitrary: c0)
     (auto simp: append_field_def decl_bytes_def decl_field_def Let_def)

lemma length_layout: "length (layout off decls) = length decls"
  by (induction decls arbitrary: off) auto

lemma layout_nth:
  "k < length decls \<Longrightarrow>
     layout off decls ! k = decl_field (off + sum_list (map decl_bytes (take k decls))) (decls ! k)"
proof (induction decls arbitrary: off k)
  case Nil
  then show ?case by simp
next
  case (Cons d ds)
  show ?case
  proof (cases k)
    case 0
    then show ?thesis by simp
  next
    case (Suc j)
    with Cons.prems have "j < length ds" by simp
    from Cons.IH [OF this] Suc show ?thesis by (simp add: add.assoc)
  qed
qed

lemma field_bytes_decl_field: "field_bytes (decl_field off d) = decl_bytes d"
  by (cases d) (simp add: field_bytes_def decl_field_def decl_bytes_def)

lemma map_field_bytes_layout: "map field_bytes (layout off decls) = map decl_bytes decls"
  by (induction decls arbitrary: off) (auto simp: field_bytes_decl_field)

lemma append_fields_fields: "fields' (append_fields decls cloud) = layout 0 decls"
  by (simp add: append_fields_def foldl_append_field_fields reset_fields_def)

lemma append_fields_step: "point_step (append_fields decls cloud) = sum_list (map decl_bytes decls)"
  by (simp add: append_fields_def foldl_append_field_step reset_fields_def)

lemma unat_sum_field_bytes:
  "sum_list (map field_nbytes fs) < 2 ^ 32 \<Longrightarrow>
     unat (sum_list (map field_bytes fs)) = sum_list (map field_nbytes fs)"
proof (induction fs)
  case Nil
  then show ?case by simp
next
  case (Cons f fs)
  from Cons.prems have small: "field_nbytes f < 2 ^ 32" and rest: "sum_list (map field_nbytes fs) < 2 ^ 32"
    by simp_all
  have one: "unat (field_bytes f) = field_nbytes f"
    using small unat_mult_lem [of "count f" "value_size (elem_type f)"]
    by (simp add: field_bytes_def field_nbytes_def)
  have "unat (field_bytes f) + unat (sum_list (map field_bytes fs)) < 2 ^ 32"
    using Cons.prems Cons.IH [OF rest] one by simp
  then have "unat (field_bytes f + sum_list (map field_bytes fs)) =
      unat (field_bytes f) + unat (sum_list (map field_bytes fs))"
    using unat_add_lem [of "field_bytes f" "sum_list (map field_bytes fs)"] by simp
  then show ?case using one Cons.IH [OF rest] by simp
qed

lemma sum_list_take_le:
  fixes g :: "'a \<Rightarrow> nat"
  shows "sum_list (map g (take k xs)) \<le> sum_list (map g xs)"
proof -
  have "sum_list (map g xs) = sum_list (map g (take k xs)) + sum_list (map g (drop k xs))"
    by (metis append_take_drop_id map_append sum_list_append)
  then show ?thesis by simp
qed

section \<open>Copying selected points\<close>

lemma unat_index_mult:
  "0 \<le> ix \<Longrightarrow> nat ix * unat (ps :: u32) < 2 ^ 32 \<Longrightarrow> unat (word_of_int ix * ps) = nat ix * unat ps"
proof -
  assume a: "0 \<le> ix" and b: "nat ix * unat ps < 2 ^ 32"
  have "unat (word_of_int ix :: u32) = nat ix mod 2 ^ 32"
    using a by (simp add: unat_eq_nat_uint uint_word_of_int nat_mod_distrib)
  then have "unat (word_of_int ix * ps) = (nat ix mod 2 ^ 32 * unat ps) mod 2 ^ 32"
    by (simp add: unat_word_ariths)
  also have "\<dots> = (nat ix * unat ps) mod 2 ^ 32"
    by (simp add: mod_mult_left_eq)
  finally show ?thesis using b by simp
qed

lemma copy_loop_correct:
  assumes "\<forall>ix \<in> set its. 0 \<le> ix \<and> (nat ix + 1) * unat (point_step input) \<le> length (data input)"
    and "length (data input) < 2 ^ 32"
    and "(i + length its) * unat (point_step input) \<le> length out"
    and "(i + length its) * unat (point_step input) < 2 ^ 32"
  shows "\<exists>out'. copy_loop input (point_step input) its (int i) out = Inr out' \<and>
           length out' = length out \<and>
           take (i * unat (point_step input)) out' = take (i * unat (point_step input)) out \<and>
           drop ((i + length its) * unat (point_step input)) out' =
             drop ((i + length its) * unat (point_step input)) out \<and>
           (\<forall>k < length its.
              take (unat (point_step input)) (drop ((i + k) * unat (point_step input)) out') =
              take (unat (point_step input)) (drop (nat (its ! k) * unat (point_step input)) (data input)))"
  using assms
proof (induction its arbitrary: i out)
  case Nil
  then show ?case by simp
next
  case (Cons ix its)
  let ?ps = "unat (point_step input)"
  let ?src = "data input"
  from Cons.prems(1) have ix0: "0 \<le> ix" and ixr: "(nat ix + 1) * ?ps \<le> length ?src" by simp_all
  have first: "unat (word_of_int ix * point_step input) = nat ix * ?ps"
    using ix0 ixr Cons.prems(2) by (intro unat_index_mult) (simp_all add: algebra_simps)
  have "nat (ix + 1) = nat ix + 1" using ix0 by simp
  then have last: "unat (word_of_int (ix + 1) * point_step input) = (nat ix + 1) * ?ps"
    using ix0 ixr Cons.prems(2) unat_index_mult [of "ix + 1" "point_step input"] by simp
  have dfirst: "unat (word_of_int (int i) * point_step input) = i * ?ps"
    using Cons.prems(4) unat_index_mult [of "int i" "point_step input"] by (simp add: algebra_simps)
  let ?out1 = "take (i * ?ps) out @ take ?ps (drop (nat ix * ?ps) ?src) @ drop (i * ?ps + ?ps) out"
  have room: "i * ?ps + ?ps \<le> length out" using Cons.prems(3) by (simp add: algebra_simps)
  have cp: "std_copy ?src (nat ix * ?ps) ((nat ix + 1) * ?ps) out (i * ?ps) = Inr ?out1"
    using ixr room by (simp add: std_copy_def)
  have slice: "length (take ?ps (drop (nat ix * ?ps) ?src)) = ?ps" using ixr by (simp add: algebra_simps)
  have len1: "length ?out1 = length out" using room slice by simp
  have p3: "(Suc i + length its) * ?ps \<le> length ?out1" using Cons.prems(3) len1 by simp
  have p4: "(Suc i + length its) * ?ps < 2 ^ 32" using Cons.prems(4) by simp
  have p1: "\<forall>ix \<in> set its. 0 \<le> ix \<and> (nat ix + 1) * ?ps \<le> length ?src" using Cons.prems(1) by simp
  from Cons.IH [OF p1 Cons.prems(2) p3 p4]
  obtain out' where run: "copy_loop input (point_step input) its (int (Suc i)) ?out1 = Inr out'"
    and len': "length out' = length ?out1"
    and pre: "take (Suc i * ?ps) out' = take (Suc i * ?ps) ?out1"
    and post: "drop ((Suc i + length its) * ?ps) out' = drop ((Suc i + length its) * ?ps) ?out1"
    and recs: "\<forall>k < length its. take ?ps (drop ((Suc i + k) * ?ps) out') =
                 take ?ps (drop (nat (its ! k) * ?ps) ?src)"
    by blast
  have run0: "copy_loop input (point_step input) (ix # its) (int i) out = Inr out'"
    using run cp first last dfirst by (simp add: add.commute)
  have pre0: "take (i * ?ps) out' = take (i * ?ps) out"
  proof -
    have "take (i * ?ps) out' = take (i * ?ps) (take (Suc i * ?ps) out')" by (simp add: min_def)
    also have "\<dots> = take (i * ?ps) (take (Suc i * ?ps) ?out1)" by (simp only: pre)
    also have "\<dots> = take (i * ?ps) out" using room by (simp add: min_def)
    finally show ?thesis .
  qed
  have rec0: "take ?ps (drop (i * ?ps) out') = take ?ps (drop (nat ix * ?ps) ?src)"
  proof -
    have "take ?ps (drop (i * ?ps) out') = drop (i * ?ps) (take (Suc i * ?ps) out')"
      by (simp add: drop_take)
    also have "\<dots> = drop (i * ?ps) (take (Suc i * ?ps) ?out1)" by (simp only: pre)
    also have "\<dots> = take ?ps (drop (nat ix * ?ps) ?src)" using room slice by simp
    finally show ?thesis .
  qed
  have post0: "drop ((i + length (ix # its)) * ?ps) out' = drop ((i + length (ix # its)) * ?ps) out"
  proof -
    have "drop ((Suc i + length its) * ?ps) ?out1 = drop ((Suc i + length its) * ?ps) out"
      using room slice by (simp add: algebra_simps)
    then show ?thesis using post by simp
  qed
  have recs0: "\<forall>k < length (ix # its).
      take ?ps (drop ((i + k) * ?ps) out') = take ?ps (drop (nat ((ix # its) ! k) * ?ps) ?src)"
  proof (intro allI impI)
    fix k assume k: "k < length (ix # its)"
    show "take ?ps (drop ((i + k) * ?ps) out') = take ?ps (drop (nat ((ix # its) ! k) * ?ps) ?src)"
    proof (cases k)
      case 0
      then show ?thesis using rec0 by simp
    next
      case (Suc j)
      then have "j < length its" using k by simp
      with recs Suc show ?thesis by simp
    qed
  qed
  show ?case using run0 len' len1 pre0 post0 recs0 by simp
qed

lemma in_range_bytes:
  assumes "wf_cloud cloud" "i < num_points cloud"
  shows "(i + 1) * unat (point_step cloud) \<le> length (data cloud)"
proof -
  have "(i + 1) * unat (point_step cloud) \<le> (unat (height cloud) * unat (width cloud)) * unat (point_step cloud)"
    using assms(2) by (intro mult_le_mono1) (simp add: num_points_def)
  also have "\<dots> = unat (height cloud) * (unat (width cloud) * unat (point_step cloud))" by simp
  also have "\<dots> \<le> unat (height cloud) * unat (row_step cloud)"
    using assms(1) by (intro mult_le_mono2) (simp add: wf_cloud_def)
  finally show ?thesis using assms(1) by (simp add: wf_cloud_def)
qed

section \<open>The fits\<close>

lemma and_then_simps [simp]:
  "and_then (Inr v) f = f v"
  "and_then (Inl e) f = Inl e"
  by (simp_all add: and_then_def)

lemma and_then_eq_Inr: "and_then r f = Inr y \<longleftrightarrow> (\<exists>v. r = Inr v \<and> f v = Inr y)"
  by (cases r) simp_all

lemma read_at_in_range: "0 \<le> i \<Longrightarrow> nat i < length xs \<Longrightarrow> read_at xs i = Inr (xs ! nat i)"
  by (simp add: read_at_def)

lemma collect_valid_eq:
  "0 \<le> i \<Longrightarrow> n \<le> int (length x_begin) \<Longrightarrow>
   collect_valid x_begin n i valid =
     Inr (valid @ filter (\<lambda>k. finite_point (x_begin ! nat k)) [i..n - 1])"
proof (induction x_begin n i valid rule: collect_valid.induct)
  case (1 x_begin n i valid)
  show ?case
  proof (cases "i < n")
    case False
    then show ?thesis by (simp add: collect_valid.simps [of x_begin n i valid])
  next
    case True
    have rd: "read_at x_begin i = Inr (x_begin ! nat i)"
      using True "1.prems" by (intro read_at_in_range) auto
    have up: "[i..n - 1] = i # [i + 1..n - 1]" using True by (simp add: upto_rec1)
    show ?thesis
    proof (cases "finite_point (x_begin ! nat i)")
      case fp: True
      from "1.IH"(2) [OF True rd] fp "1.prems"
      have "collect_valid x_begin n (i + 1) (valid @ [i]) =
          Inr ((valid @ [i]) @ filter (\<lambda>k. finite_point (x_begin ! nat k)) [i + 1..n - 1])"
        by simp
      then show ?thesis using True rd fp up
        by (simp add: collect_valid.simps [of x_begin n i valid])
    next
      case fp: False
      from "1.IH"(1) [OF True rd] fp "1.prems"
      have "collect_valid x_begin n (i + 1) valid =
          Inr (valid @ filter (\<lambda>k. finite_point (x_begin ! nat k)) [i + 1..n - 1])"
        by simp
      then show ?thesis using True rd fp up
        by (simp add: collect_valid.simps [of x_begin n i valid])
    qed
  qed
qed

lemma collect_valid_valid_indices:
  "n \<le> int (length x_begin) \<Longrightarrow> collect_valid x_begin n 0 [] = Inr (valid_indices x_begin n)"
  using collect_valid_eq [of 0 n x_begin "[]"] by (simp add: valid_indices_def)

lemma set_valid_indices: "set (valid_indices x_begin n) = {k. valid_index x_begin n k}"
  by (auto simp: valid_indices_def valid_index_def)

lemma update_extrema_valid:
  assumes "scan_inv x_begin n i e" "valid_index x_begin n i"
  shows "valid_index x_begin n (i_r0 (update_extrema w i e)) \<and>
         valid_index x_begin n (i_r1 (update_extrema w i e)) \<and>
         valid_index x_begin n (i_c0 (update_extrema w i e)) \<and>
         valid_index x_begin n (i_c1 (update_extrema w i e))"
proof -
  have ne: "k \<noteq> INVALID_INDEX \<Longrightarrow> k \<noteq> INVALID_INDEX" for k :: Index by simp
  from assms(1) consider
    (none) "i_r0 e = INVALID_INDEX" "i_r1 e = INVALID_INDEX" "i_c0 e = INVALID_INDEX" "i_c1 e = INVALID_INDEX"
    | (some) "valid_index x_begin n (i_r0 e)" "valid_index x_begin n (i_r1 e)"
        "valid_index x_begin n (i_c0 e)" "valid_index x_begin n (i_c1 e)"
    by (auto simp: scan_inv_def)
  then show ?thesis
  proof cases
    case none
    then show ?thesis using assms(2) by (simp add: update_extrema_def Let_def)
  next
    case some
    then show ?thesis using assms(2) by (simp add: update_extrema_def Let_def)
  qed
qed

lemma scan_result:
  "0 \<le> i \<Longrightarrow> n \<le> int (length x_begin) \<Longrightarrow> scan_inv x_begin n i e \<Longrightarrow>
   \<exists>e'. scan x_begin w n i e = Inr e' \<and> scan_inv x_begin n n e'"
proof (induction x_begin w n i e rule: scan.induct)
  case (1 x_begin w n i e)
  show ?case
  proof (cases "i < n")
    case False
    have "scan_inv x_begin n n e"
      using "1.prems"(3) False unfolding scan_inv_def valid_index_def by auto
    then show ?thesis using False by (simp add: scan.simps [of x_begin w n i e])
  next
    case True
    have rd: "read_at x_begin i = Inr (x_begin ! nat i)"
      using True "1.prems" by (intro read_at_in_range) auto
    show ?thesis
    proof (cases "finite_point (x_begin ! nat i)")
      case fp: False
      have inv': "scan_inv x_begin n (i + 1) e"
        using "1.prems"(3) fp unfolding scan_inv_def valid_index_def
        by (metis add.commute less_le_not_le zless_add1_eq)
      from "1.IH"(1) [OF True rd] fp "1.prems" inv'
      obtain e' where "scan x_begin w n (i + 1) e = Inr e'" "scan_inv x_begin n n e'" by auto
      then show ?thesis using True rd fp by (simp add: scan.simps [of x_begin w n i e])
    next
      case fp: True
      let ?e = "update_extrema w i e"
      have vi: "valid_index x_begin n i" using True fp "1.prems"(1) by (simp add: valid_index_def)
      have v4: "valid_index x_begin n (i_r0 ?e) \<and> valid_index x_begin n (i_r1 ?e) \<and>
          valid_index x_begin n (i_c0 ?e) \<and> valid_index x_begin n (i_c1 ?e)"
        by (rule update_extrema_valid [OF "1.prems"(3) vi])
      then have inv': "scan_inv x_begin n k ?e" for k by (simp add: scan_inv_def)
      show ?thesis
      proof (cases "i_r0 ?e < i_r1 ?e \<and> i_c0 ?e < i_c1 ?e")
        case brk: True
        then show ?thesis using True rd fp inv' [of n]
          by (simp add: scan.simps [of x_begin w n i e] Let_def)
      next
        case brk: False
        from "1.IH"(2) [OF True rd _ refl brk] fp "1.prems" inv' [of "i + 1"]
        obtain e' where "scan x_begin w n (i + 1) ?e = Inr e'" "scan_inv x_begin n n e'" by auto
        then show ?thesis using True rd fp brk
          by (auto simp add: scan.simps [of x_begin w n i e] Let_def)
      qed
    qed
  qed
qed

lemma fless_asym: "fless a b \<Longrightarrow> \<not> fless b a"
  by (cases a; cases b) auto

lemma fless_trans: "fless a b \<Longrightarrow> fless b c \<Longrightarrow> fless a c"
  by (cases a; cases b; cases c) auto

lemma mset_insert_model: "mset (insert_model a bs) = add_mset a (mset bs)"
  by (induction bs) auto

lemma set_insert_model: "set (insert_model a bs) = insert a (set bs)"
  by (induction bs) auto

lemma sorted_insert_model:
  "sorted_by_step bs \<Longrightarrow> sorted_by_step (insert_model a bs)"
proof (induction bs)
  case Nil
  then show ?case by (simp add: sorted_by_step_def)
next
  case (Cons b bs)
  show ?case
  proof (cases "comp_step a b")
    case True
    have "\<not> comp_step y a" if "y \<in> set (b # bs)" for y
    proof
      assume ya: "comp_step y a"
      then have yb: "comp_step y b" using True fless_trans by (auto simp: comp_step_def)
      from that Cons.prems have "y = b \<or> \<not> comp_step y b"
        by (auto simp: sorted_by_step_def)
      then show False using yb fless_asym [of "snd b" "snd b"] by (auto simp: comp_step_def)
    qed
    then show ?thesis using True Cons.prems by (auto simp: sorted_by_step_def)
  next
    case False
    then show ?thesis using Cons
      by (auto simp: sorted_by_step_def set_insert_model)
  qed
qed

lemma sorts_insertion_sort: "sorts insertion_sort"
proof -
  have "mset (foldr insert_model xs []) = mset xs \<and> sorted_by_step (foldr insert_model xs [])" for xs
    by (induction xs) (auto simp: mset_insert_model sorted_insert_model, simp add: sorted_by_step_def)
  then show ?thesis by (simp add: sorts_def insertion_sort_def)
qed

lemma pair_models_ok:
  "\<forall>v \<in> set valid. 0 \<le> v \<and> nat v < length x_begin \<Longrightarrow>
     \<exists>az el. pair_models X w x_begin valid az0 el0 = Inr (az, el)"
proof (induction X w x_begin valid az0 el0 rule: pair_models.induct)
  case (1 X w x_begin v0 v1 valid az_models el_models)
  have r0: "read_at x_begin v0 = Inr (x_begin ! nat v0)" and r1: "read_at x_begin v1 = Inr (x_begin ! nat v1)"
    using "1.prems" by (simp_all add: read_at_in_range)
  let ?c0 = "sint (col_of w v0)" and ?c1 = "sint (col_of w v1)"
  let ?r0 = "sint (row_of w v0)" and ?r1 = "sint (row_of w v1)"
  let ?az = "if ?c0 \<noteq> ?c1 then az_models @ [az_model X (x_begin ! nat v0) (x_begin ! nat v1) ?c0 ?c1] else az_models"
  let ?el = "if ?r0 \<noteq> ?r1 then el_models @ [el_model X (x_begin ! nat v0) (x_begin ! nat v1) ?r0 ?r1] else el_models"
  have a: "(if ?c0 \<noteq> ?c1
            then and_then (read_at x_begin v0) (\<lambda>p0. and_then (read_at x_begin v1) (\<lambda>p1.
                   Inr (az_models @ [az_model X p0 p1 ?c0 ?c1])))
            else Inr az_models) = Inr ?az"
    by (simp add: r0 r1)
  have e: "(if ?r0 \<noteq> ?r1
            then and_then (read_at x_begin v0) (\<lambda>p0. and_then (read_at x_begin v1) (\<lambda>p1.
                   Inr (el_models @ [el_model X p0 p1 ?r0 ?r1])))
            else Inr el_models) = Inr ?el"
    by (simp add: r0 r1)
  show ?case
  proof (cases "25 \<le> length ?az \<and> 25 \<le> length ?el")
    case True
    then show ?thesis by (simp only: pair_models.simps Let_def a e and_then_simps) simp
  next
    case False
    have rest: "\<forall>v \<in> set (v1 # valid). 0 \<le> v \<and> nat v < length x_begin" using "1.prems" by simp
    from "1.IH" [OF refl refl refl refl False rest]
    show ?thesis using False by (simp only: pair_models.simps Let_def a e and_then_simps) simp
  qed
qed simp_all

lemma sint_small:
  fixes x :: u32
  assumes "unat x < 2 ^ 31"
  shows "sint x = int (unat x)"
proof -
  have "int (unat x) < int (2 ^ 31)" using assms by (simp only: of_nat_less_iff)
  then have a: "uint x < 2 ^ 31" by simp
  have "(0::int) \<le> 2 ^ 31" by simp
  then have b: "- (2 ^ 31) \<le> uint x" using uint_ge_0 [of x] by linarith
  have c: "signed_take_bit 31 (uint x) = uint x"
    by (rule signed_take_bit_int_eq_self [OF b a])
  have "sint x = signed_take_bit 31 (uint x)" by (simp add: sint_uint)
  also have "\<dots> = uint x" by (rule c)
  also have "\<dots> = int (unat x)" by (rule uint_nat)
  finally show ?thesis .
qed

lemma n_points_of_eq:
  assumes "fit_input cloud x_begin"
  shows "n_points_of cloud = int (num_points cloud)"
proof -
  from assms have small: "unat (height cloud) * unat (width cloud) < 2 ^ 31"
    by (simp add: fit_input_def num_points_def)
  then have "unat (height cloud) * unat (width cloud) < 2 ^ 32" by simp
  then have "unat (height cloud * width cloud) = unat (height cloud) * unat (width cloud)"
    using unat_mult_lem [of "height cloud" "width cloud"] by simp
  then show ?thesis using sint_small [of "height cloud * width cloud"] small
    by (simp add: n_points_of_def num_points_def)
qed

lemma valid_index_not_invalid:
  "n \<le> INVALID_INDEX \<Longrightarrow> valid_index x_begin n k \<Longrightarrow> k \<noteq> INVALID_INDEX"
  by (auto simp: valid_index_def)

lemma scan_from_start:
  assumes "fit_input cloud x_begin"
  shows "\<exists>e. scan x_begin (width cloud) (n_points_of cloud) 0
            \<lparr>i_r0 = INVALID_INDEX, i_r1 = INVALID_INDEX, i_c0 = INVALID_INDEX, i_c1 = INVALID_INDEX\<rparr> = Inr e \<and>
          ((i_r0 e = INVALID_INDEX \<and> (\<forall>k. \<not> valid_index x_begin (n_points_of cloud) k)) \<or>
           (i_r0 e \<noteq> INVALID_INDEX \<and>
            valid_index x_begin (n_points_of cloud) (i_r0 e) \<and>
            valid_index x_begin (n_points_of cloud) (i_r1 e) \<and>
            valid_index x_begin (n_points_of cloud) (i_c0 e) \<and>
            valid_index x_begin (n_points_of cloud) (i_c1 e)))"
proof -
  let ?n = "n_points_of cloud"
  let ?init = "\<lparr>i_r0 = INVALID_INDEX, i_r1 = INVALID_INDEX, i_c0 = INVALID_INDEX, i_c1 = INVALID_INDEX\<rparr>"
  have n: "?n = int (num_points cloud)" by (rule n_points_of_eq [OF assms])
  have len: "?n \<le> int (length x_begin)" using assms n by (simp add: fit_input_def)
  have bound: "?n \<le> INVALID_INDEX" using assms n by (simp add: fit_input_def INVALID_INDEX_def)
  have init: "scan_inv x_begin ?n 0 ?init" by (simp add: scan_inv_def valid_index_def)
  from scan_result [OF _ len init, of "width cloud"]
  obtain e where run: "scan x_begin (width cloud) ?n 0 ?init = Inr e" and inv: "scan_inv x_begin ?n ?n e"
    by auto
  have "(i_r0 e = INVALID_INDEX \<and> (\<forall>k. \<not> valid_index x_begin ?n k)) \<or>
        (i_r0 e \<noteq> INVALID_INDEX \<and> valid_index x_begin ?n (i_r0 e) \<and> valid_index x_begin ?n (i_r1 e) \<and>
         valid_index x_begin ?n (i_c0 e) \<and> valid_index x_begin ?n (i_c1 e))"
    using inv valid_index_not_invalid [OF bound, of x_begin]
    unfolding scan_inv_def by (auto simp: valid_index_def)
  with run show ?thesis by blast
qed

lemma read_at_valid:
  "n \<le> int (length x_begin) \<Longrightarrow> valid_index x_begin n k \<Longrightarrow>
     read_at x_begin k = Inr (x_begin ! nat k)"
  by (auto simp: valid_index_def intro!: read_at_in_range)

lemma fit_fast_none:
  assumes "fit_input cloud x_begin" "\<forall>k. \<not> valid_index x_begin (n_points_of cloud) k"
  shows "fit_fast X cloud x_begin m = Inr (False, m)"
proof -
  from scan_from_start [OF assms(1)] assms(2)
  obtain e where "scan x_begin (width cloud) (n_points_of cloud) 0
      \<lparr>i_r0 = INVALID_INDEX, i_r1 = INVALID_INDEX, i_c0 = INVALID_INDEX, i_c1 = INVALID_INDEX\<rparr> = Inr e"
    "i_r0 e = INVALID_INDEX" by auto
  then show ?thesis using assms(1) by (simp add: fit_fast_def fit_input_def)
qed

lemma fit_fast_some:
  assumes "fit_input cloud x_begin" "valid_index x_begin (n_points_of cloud) k"
  shows "\<exists>(e :: Extrema) m' el az.
           valid_index x_begin (n_points_of cloud) (i_r0 e) \<and>
           valid_index x_begin (n_points_of cloud) (i_r1 e) \<and>
           valid_index x_begin (n_points_of cloud) (i_c0 e) \<and>
           valid_index x_begin (n_points_of cloud) (i_c1 e) \<and>
           fit_fast X cloud x_begin m = Inr (True, m') \<and>
           height' m' = height cloud \<and> width' m' = width cloud \<and>
           elevation_step m' =
             fdiv el (of_index (sint (row_of (width cloud) (i_r1 e)) - sint (row_of (width cloud) (i_r0 e)))) \<and>
           azimuth_step m' =
             fdiv az (of_index (sint (col_of (width cloud) (i_c1 e)) - sint (col_of (width cloud) (i_c0 e))))"
proof -
  let ?n = "n_points_of cloud"
  from scan_from_start [OF assms(1)] assms(2)
  obtain e where run: "scan x_begin (width cloud) ?n 0
      \<lparr>i_r0 = INVALID_INDEX, i_r1 = INVALID_INDEX, i_c0 = INVALID_INDEX, i_c1 = INVALID_INDEX\<rparr> = Inr e"
    and found: "i_r0 e \<noteq> INVALID_INDEX"
    and v: "valid_index x_begin ?n (i_r0 e)" "valid_index x_begin ?n (i_r1 e)"
      "valid_index x_begin ?n (i_c0 e)" "valid_index x_begin ?n (i_c1 e)"
    by auto
  have len: "?n \<le> int (length x_begin)"
    using assms(1) n_points_of_eq [OF assms(1)] by (simp add: fit_input_def)
  note rd = v [THEN read_at_valid [OF len]]
  obtain a0 b0 c0 where p0: "x_begin ! nat (i_r0 e) = (a0, b0, c0)" by (cases "x_begin ! nat (i_r0 e)") auto
  obtain a1 b1 c1 where p1: "x_begin ! nat (i_r1 e) = (a1, b1, c1)" by (cases "x_begin ! nat (i_r1 e)") auto
  obtain a2 b2 c2 where p2: "x_begin ! nat (i_c0 e) = (a2, b2, c2)" by (cases "x_begin ! nat (i_c0 e)") auto
  obtain a3 b3 c3 where p3: "x_begin ! nat (i_c1 e) = (a3, b3, c3)" by (cases "x_begin ! nat (i_c1 e)") auto
  let ?el = "fsub (elevation X a1 b1 c1) (elevation X a0 b0 c0)"
  let ?az = "fsub (azimuth X a3 b3) (azimuth X a2 b2)"
  have "\<exists>m'. fit_fast X cloud x_begin m = Inr (True, m') \<and>
      height' m' = height cloud \<and> width' m' = width cloud \<and>
      elevation_step m' = fdiv ?el
        (of_index (sint (row_of (width cloud) (i_r1 e)) - sint (row_of (width cloud) (i_r0 e)))) \<and>
      azimuth_step m' = fdiv ?az
        (of_index (sint (col_of (width cloud) (i_c1 e)) - sint (col_of (width cloud) (i_c0 e))))"
    using assms(1) run found rd p0 p1 p2 p3
    by (simp add: fit_fast_def fit_input_def Let_def)
  then obtain m' where f: "fit_fast X cloud x_begin m = Inr (True, m')"
    "height' m' = height cloud" "width' m' = width cloud"
    "elevation_step m' = fdiv ?el
        (of_index (sint (row_of (width cloud) (i_r1 e)) - sint (row_of (width cloud) (i_r0 e))))"
    "azimuth_step m' = fdiv ?az
        (of_index (sint (col_of (width cloud) (i_c1 e)) - sint (col_of (width cloud) (i_c0 e))))"
    by blast
  show ?thesis
    by (rule exI [of _ e], rule exI [of _ m'], rule exI [of _ ?el], rule exI [of _ ?az])
       (simp add: v f)
qed

lemma valid_index_nat:
  assumes "fit_input cloud x_begin"
  shows "valid_index x_begin (n_points_of cloud) k \<longleftrightarrow>
           0 \<le> k \<and> nat k < num_points cloud \<and> finite_point (x_begin ! nat k)"
  using n_points_of_eq [OF assms] by (auto simp: valid_index_def)

lemma exists_valid_index:
  assumes "fit_input cloud x_begin"
  shows "(\<exists>k. valid_index x_begin (n_points_of cloud) k) \<longleftrightarrow>
           (\<exists>i < num_points cloud. finite_point (x_begin ! i))"
proof
  assume "\<exists>k. valid_index x_begin (n_points_of cloud) k"
  then obtain k where "valid_index x_begin (n_points_of cloud) k" ..
  then have "nat k < num_points cloud \<and> finite_point (x_begin ! nat k)"
    by (simp add: valid_index_nat [OF assms])
  then show "\<exists>i < num_points cloud. finite_point (x_begin ! i)" by blast
next
  assume "\<exists>i < num_points cloud. finite_point (x_begin ! i)"
  then obtain i where "i < num_points cloud" "finite_point (x_begin ! i)" by blast
  then have "valid_index x_begin (n_points_of cloud) (int i)"
    by (simp add: valid_index_nat [OF assms])
  then show "\<exists>k. valid_index x_begin (n_points_of cloud) k" ..
qed

lemma fit_robust_unfold:
  assumes "1 \<le> height cloud" "1 \<le> width cloud"
    and "collect_valid x_begin (n_points_of cloud) 0 [] = Inr valid"
    and "pair_models X (width cloud) x_begin (g valid) [] [] = Inr (az, el)"
  shows "fit_robust X g cloud x_begin m =
     (if az = [] \<or> el = [] then Inr (False, m)
      else Inr (True, m\<lparr>azimuth_start := fst (std_sort X az ! (length (std_sort X az) div 2)),
                   azimuth_step := snd (std_sort X az ! (length (std_sort X az) div 2)),
                   elevation_start := fst (std_sort X el ! (length (std_sort X el) div 2)),
                   elevation_step := snd (std_sort X el ! (length (std_sort X el) div 2)),
                   height' := height cloud, width' := width cloud\<rparr>))"
proof -
  have "fit_robust X g cloud x_begin m =
      and_then (Inr valid) (\<lambda>valid.
        and_then (pair_models X (width cloud) x_begin (g valid) [] []) (\<lambda>(az_models, el_models).
        if az_models = [] \<or> el_models = [] then Inr (False, m)
        else
          let az_sorted = std_sort X az_models;
              m1 = m\<lparr>azimuth_start := fst (az_sorted ! (length az_sorted div 2))\<rparr>;
              m2 = m1\<lparr>azimuth_step := snd (az_sorted ! (length az_sorted div 2))\<rparr>;
              el_sorted = std_sort X el_models;
              m3 = m2\<lparr>elevation_start := fst (el_sorted ! (length el_sorted div 2))\<rparr>;
              m4 = m3\<lparr>elevation_step := snd (el_sorted ! (length el_sorted div 2))\<rparr>;
              m5 = m4\<lparr>height' := height cloud, width' := width cloud\<rparr>
          in Inr (True, m5)))"
    unfolding fit_robust_def using assms(1,2) by (simp only: assms(3) simp_thms if_False)
  also have "\<dots> = (if az = [] \<or> el = [] then Inr (False, m)
      else Inr (True, m\<lparr>azimuth_start := fst (std_sort X az ! (length (std_sort X az) div 2)),
                   azimuth_step := snd (std_sort X az ! (length (std_sort X az) div 2)),
                   elevation_start := fst (std_sort X el ! (length (std_sort X el) div 2)),
                   elevation_step := snd (std_sort X el ! (length (std_sort X el) div 2)),
                   height' := height cloud, width' := width cloud\<rparr>))"
    by (simp only: and_then_simps assms(4) prod.case Let_def)
  finally show ?thesis .
qed

lemma fit_robust_outcome:
  assumes "fit_input cloud x_begin" "is_shuffle g"
  shows "\<exists>az el. collect_valid x_begin (n_points_of cloud) 0 [] = Inr (valid_indices x_begin (n_points_of cloud)) \<and>
           pair_models X (width cloud) x_begin (g (valid_indices x_begin (n_points_of cloud))) [] [] = Inr (az, el) \<and>
           (\<exists>b m'. fit_robust X g cloud x_begin m = Inr (b, m') \<and> (b = False \<longleftrightarrow> az = [] \<or> el = []))"
proof -
  let ?n = "n_points_of cloud"
  let ?valid = "valid_indices x_begin ?n"
  have hw: "1 \<le> height cloud" "1 \<le> width cloud" using assms(1) by (simp_all add: fit_input_def)
  have len: "?n \<le> int (length x_begin)"
    using assms(1) n_points_of_eq [OF assms(1)] by (simp add: fit_input_def)
  have cv: "collect_valid x_begin ?n 0 [] = Inr ?valid"
    by (rule collect_valid_valid_indices [OF len])
  have "mset (g ?valid) = mset ?valid" using assms(2) by (simp add: is_shuffle_def)
  then have "set (g ?valid) = set ?valid" by (rule mset_eq_setD)
  then have sub: "v \<in> set ?valid" if "v \<in> set (g ?valid)" for v
    using that by (simp only:)
  have "\<forall>v \<in> set (g ?valid). 0 \<le> v \<and> nat v < length x_begin"
  proof
    fix v assume "v \<in> set (g ?valid)"
    then have "v \<in> set ?valid" by (rule sub)
    then have v: "valid_index x_begin ?n v" by (simp only: set_valid_indices mem_Collect_eq)
    then have "0 \<le> v" "v < ?n" by (simp_all add: valid_index_def)
    then show "0 \<le> v \<and> nat v < length x_begin" using len by linarith
  qed
  from pair_models_ok [OF this, of X "width cloud" "[]" "[]"]
  obtain az el where pm: "pair_models X (width cloud) x_begin (g ?valid) [] [] = Inr (az, el)"
    by blast
  note u = fit_robust_unfold [where g = g and valid = ?valid and m = m, OF hw cv pm]
  have "\<exists>b m'. fit_robust X g cloud x_begin m = Inr (b, m') \<and> (b = False \<longleftrightarrow> az = [] \<or> el = [])"
  proof (cases "az = [] \<or> el = []")
    case True
    then have "fit_robust X g cloud x_begin m = Inr (False, m)" using u by simp
    then show ?thesis using True by blast
  next
    case False
    then obtain m' where "fit_robust X g cloud x_begin m = Inr (True, m')" using u by simp
    then show ?thesis using False by blast
  qed
  with cv pm show ?thesis by blast
qed

lemma valid_indices_empty:
  "\<forall>k. \<not> valid_index x_begin n k \<Longrightarrow> valid_indices x_begin n = []"
  using set_valid_indices [of x_begin n] by auto

lemma nan_not_finite: "nan_point p \<Longrightarrow> \<not> finite_point p"
  by (cases p) (auto simp: nan_point_def finite_point_def)

lemma check_loop_ok:
  "0 \<le> x_it \<Longrightarrow> nat x_it + length cells \<le> length x_begin \<Longrightarrow>
     \<exists>acc'. check_loop X m x_begin cells x_it acc = Inr acc'"
proof (induction cells arbitrary: x_it acc)
  case Nil
  then show ?case by simp
next
  case (Cons cell cells)
  obtain r c where cell: "cell = (r, c)" by (cases cell) auto
  obtain s n where acc: "acc = (s, n)" by (cases acc) auto
  have rd: "read_at x_begin x_it = Inr (x_begin ! nat x_it)"
    using Cons.prems by (intro read_at_in_range) auto
  have "0 \<le> x_it + 1" "nat (x_it + 1) + length cells \<le> length x_begin"
    using Cons.prems by auto
  from Cons.IH [OF this] show ?case by (simp add: cell acc rd)
qed

lemma length_grid_cells: "length (grid_cells h w) = unat h * unat w"
  by (simp add: grid_cells_def)

lemma unat_index:
  "0 \<le> k \<Longrightarrow> k < 2 ^ 32 \<Longrightarrow> unat (word_of_int k :: u32) = nat k"
  by (simp add: unat_eq_nat_uint uint_word_of_int)

lemma unat_col_of:
  "0 \<le> k \<Longrightarrow> k < 2 ^ 32 \<Longrightarrow> unat (col_of w k) = nat k mod unat w"
  by (simp add: col_of_def unat_mod unat_index)

lemma unat_row_of:
  "0 \<le> k \<Longrightarrow> k < 2 ^ 32 \<Longrightarrow> unat (row_of w k) = nat k div unat w"
  by (simp add: row_of_def unat_div unat_index)

lemma valid_index_bounds:
  assumes "fit_input cloud x_begin" "valid_index x_begin (n_points_of cloud) k"
  shows "0 \<le> k" "k < 2 ^ 32" "nat k < num_points cloud" "finite_point (x_begin ! nat k)"
proof -
  from assms show a: "0 \<le> k" and b: "nat k < num_points cloud" and "finite_point (x_begin ! nat k)"
    by (simp_all add: valid_index_nat)
  have "num_points cloud < 2 ^ 31" using assms(1) by (simp add: fit_input_def)
  then have "int (num_points cloud) < int (2 ^ 31)" by (simp only: of_nat_less_iff)
  moreover have "k < int (num_points cloud)"
    using assms(2) n_points_of_eq [OF assms(1)] by (simp add: valid_index_def)
  ultimately show "k < 2 ^ 32" by simp
qed

lemma fdiv_zero: "\<not> isfinite (fdiv v (Finite 0))"
  by (cases v) auto

lemma ideal_angles:
  "atan2 0 1 = 0" "atan2 1 1 = pi / 4" "atan2 1 0 = pi / 2" "atan2 0 (sqrt 2) = 0"
  by (simp_all add: atan2_def arctan_one)

lemma fit_input_grid: "fit_input (grid 2 2) grid_points"
  by (simp add: fit_input_def grid_def grid_points_def num_points_def)

lemma n_points_grid: "n_points_of (grid 2 2) = 4"
  by (simp add: n_points_of_def grid_def)

lemma valid_grid: "collect_valid grid_points (n_points_of (grid 2 2)) 0 [] = Inr [0, 1, 2, 3]"
proof -
  have "collect_valid grid_points 4 0 [] = Inr (valid_indices grid_points 4)"
    by (rule collect_valid_valid_indices) (simp add: grid_points_def)
  moreover have "valid_indices grid_points 4 = [0, 1, 2, 3]"
    by (simp add: valid_indices_def grid_points_def finite_point_def upto_rec1)
  ultimately show ?thesis by (simp add: n_points_grid)
qed

lemma pairs_in_order:
  "pair_models ideal_externals 2 grid_points [0, 1, 2, 3] [] [] =
     Inr ([(Finite 0, Finite (pi / 4)), (Finite 0, Finite (pi / 4)), (Finite 0, Finite (pi / 2))],
          [(Finite 0, Finite (pi / 4))])"
  by (simp add: ideal_externals_def grid_points_def read_at_def az_model_def el_model_def
      col_of_def row_of_def fsub_def of_index_def ideal_angles Let_def)

lemma pairs_swapped:
  "pair_models ideal_externals 2 grid_points [2, 3, 0, 1] [] [] =
     Inr ([(Finite 0, Finite (pi / 2)), (Finite 0, Finite (pi / 2)), (Finite 0, Finite (pi / 4))],
          [(Finite 0, Finite (pi / 4))])"
  by (simp add: ideal_externals_def grid_points_def read_at_def az_model_def el_model_def
      col_of_def row_of_def fsub_def of_index_def ideal_angles Let_def)

lemma is_shuffle_keep_order: "is_shuffle keep_order"
  by (simp add: is_shuffle_def keep_order_def)

lemma is_shuffle_swap_halves: "is_shuffle swap_halves"
proof -
  have "mset (drop 2 v @ take 2 v) = mset (take 2 v @ drop 2 v)" for v :: "Index list"
    by (simp only: mset_append add.commute)
  then show ?thesis by (simp add: is_shuffle_def swap_halves_def)
qed

lemma fit_robust_success:
  assumes "1 \<le> height cloud" "1 \<le> width cloud"
    and "collect_valid x_begin (n_points_of cloud) 0 [] = Inr valid"
    and "pair_models X (width cloud) x_begin (g valid) [] [] = Inr (az, el)"
    and "az \<noteq> []" "el \<noteq> []"
  shows "fit_robust X g cloud x_begin m =
     Inr (True, m\<lparr>azimuth_start := fst (std_sort X az ! (length (std_sort X az) div 2)),
                   azimuth_step := snd (std_sort X az ! (length (std_sort X az) div 2)),
                   elevation_start := fst (std_sort X el ! (length (std_sort X el) div 2)),
                   elevation_step := snd (std_sort X el ! (length (std_sort X el) div 2)),
                   height' := height cloud, width' := width cloud\<rparr>)"
  using fit_robust_unfold [where g = g and valid = valid and m = m, OF assms(1-4)] assms(5,6) by simp

lemma sorted_in_order:
  "insertion_sort [(Finite 0, Finite (pi / 4)), (Finite 0, Finite (pi / 4)), (Finite 0, Finite (pi / 2))] =
     [(Finite 0, Finite (pi / 4)), (Finite 0, Finite (pi / 4)), (Finite 0, Finite (pi / 2))]"
  "insertion_sort [(Finite 0, Finite (pi / 2)), (Finite 0, Finite (pi / 2)), (Finite 0, Finite (pi / 4))] =
     [(Finite 0, Finite (pi / 4)), (Finite 0, Finite (pi / 2)), (Finite 0, Finite (pi / 2))]"
  "insertion_sort [(Finite 0, Finite (pi / 4))] = [(Finite 0, Finite (pi / 4))]"
  by (simp_all add: insertion_sort_def comp_step_def)

lemma fit_robust_in_order:
  "fit_robust ideal_externals keep_order (grid 2 2) grid_points uncalibrated =
     Inr (True, \<lparr>azimuth_start = Finite 0, azimuth_step = Finite (pi / 4),
                 elevation_start = Finite 0, elevation_step = Finite (pi / 4),
                 height' = 2, width' = 2\<rparr>)"
proof -
  have w: "width (grid 2 2) = 2" "height (grid 2 2) = 2" by (simp_all add: grid_def)
  have s: "std_sort ideal_externals = insertion_sort" by (simp add: ideal_externals_def)
  have pm: "pair_models ideal_externals (width (grid 2 2)) grid_points (keep_order [0, 1, 2, 3]) [] [] =
     Inr ([(Finite 0, Finite (pi / 4)), (Finite 0, Finite (pi / 4)), (Finite 0, Finite (pi / 2))],
          [(Finite 0, Finite (pi / 4))])"
    by (simp only: w keep_order_def pairs_in_order)
  show ?thesis
    by (subst fit_robust_success [where g = keep_order and valid = "[0, 1, 2, 3]", OF _ _ valid_grid pm])
       (simp_all add: w s sorted_in_order uncalibrated_def)
qed

lemma fit_robust_swapped:
  "fit_robust ideal_externals swap_halves (grid 2 2) grid_points uncalibrated =
     Inr (True, \<lparr>azimuth_start = Finite 0, azimuth_step = Finite (pi / 2),
                 elevation_start = Finite 0, elevation_step = Finite (pi / 4),
                 height' = 2, width' = 2\<rparr>)"
proof -
  have w: "width (grid 2 2) = 2" "height (grid 2 2) = 2" by (simp_all add: grid_def)
  have s: "std_sort ideal_externals = insertion_sort" by (simp add: ideal_externals_def)
  have sw: "swap_halves [0, 1, 2, 3] = [2, 3, 0, 1]" by (simp add: swap_halves_def)
  have pm: "pair_models ideal_externals (width (grid 2 2)) grid_points (swap_halves [0, 1, 2, 3]) [] [] =
     Inr ([(Finite 0, Finite (pi / 2)), (Finite 0, Finite (pi / 2)), (Finite 0, Finite (pi / 4))],
          [(Finite 0, Finite (pi / 4))])"
    by (simp only: w sw pairs_swapped)
  show ?thesis
    by (subst fit_robust_success [where g = swap_halves and valid = "[0, 1, 2, 3]", OF _ _ valid_grid pm])
       (simp_all add: w s sorted_in_order uncalibrated_def)
qed

lemma padded_copy:
  "copy_points padded_cloud [1, 0] empty_cloud =
     Inr (padded_cloud\<lparr>width := 2, row_step := 2, data := [9, 7]\<rparr>)"
  by (simp add: padded_cloud_def empty_cloud_def copy_points_def std_resize_def std_copy_def Let_def)

lemma fit_input_nan: "fit_input (grid 2 2) nan_points"
  by (simp add: fit_input_def grid_def nan_points_def num_points_def)

lemma all_nan: "\<forall>i < num_points (grid 2 2). nan_point (nan_points ! i)"
  by (simp add: grid_def nan_points_def num_points_def nan_point_def)

lemma no_valid_nan: "\<forall>k. \<not> valid_index nan_points (n_points_of (grid 2 2)) k"
proof
  fix k
  show "\<not> valid_index nan_points (n_points_of (grid 2 2)) k"
  proof
    assume "valid_index nan_points (n_points_of (grid 2 2)) k"
    then have k: "nat k < num_points (grid 2 2)" and f: "finite_point (nan_points ! nat k)"
      by (simp_all add: valid_index_nat [OF fit_input_nan])
    from all_nan k have "nan_point (nan_points ! nat k)" by blast
    then show False using f nan_not_finite by blast
  qed
qed

lemma nan_fit_fast:
  "fit_fast ideal_externals (grid 2 2) nan_points uncalibrated = Inr (False, uncalibrated)"
  by (rule fit_fast_none [OF fit_input_nan no_valid_nan])

lemma nan_fit_robust:
  "fit_robust ideal_externals keep_order (grid 2 2) nan_points uncalibrated = Inr (False, uncalibrated)"
proof -
  have hw: "1 \<le> height (grid 2 2)" "1 \<le> width (grid 2 2)" by (simp_all add: grid_def)
  have len: "n_points_of (grid 2 2) \<le> int (length nan_points)"
    by (simp add: n_points_grid nan_points_def)
  have cv: "collect_valid nan_points (n_points_of (grid 2 2)) 0 [] = Inr []"
    using collect_valid_valid_indices [OF len] valid_indices_empty [OF no_valid_nan] by simp
  have pm: "pair_models ideal_externals (width (grid 2 2)) nan_points (keep_order []) [] [] = Inr ([], [])"
    by (simp add: keep_order_def)
  from fit_robust_unfold [where g = keep_order and valid = "[]" and m = uncalibrated, OF hw cv pm]
  show ?thesis by simp
qed

lemma fit_input_column: "fit_input (grid 2 1) column_points" "fit_input (grid 1 2) column_points"
  by (simp_all add: fit_input_def grid_def column_points_def num_points_def)

lemma column_valid:
  "\<exists>i < num_points (grid 2 1). finite_point (column_points ! i)"
  "\<exists>i < num_points (grid 1 2). finite_point (column_points ! i)"
  by (rule exI [of _ 0], simp add: grid_def num_points_def column_points_def finite_point_def)+

section \<open>The claims\<close>

text \<open>
  C3 (schema packing). For any sequence of \<open>append_field\<close> calls that follows a
  \<open>reset_fields\<close>: the buffer holds one descriptor per call, in call order, with the
  name, element type and count of the call; the offset of the \<open>k\<close>-th descriptor is the
  \<open>point_step\<close> the buffer had when the \<open>k\<close>-th call was made, which is the sum of
  \<open>count * value_size\<close> over the descriptors before it; and the final \<open>point_step\<close> is
  that sum over all descriptors. The sums are sums of \<open>uint32_t\<close> values, as the code
  computes them. Whenever the sizes add up to less than \<open>2^32\<close>, the same equations hold
  between the natural numbers.
\<close>

theorem append_field_packing:
  "length (fields' (append_fields decls cloud)) = length decls \<and>
   (\<forall>k < length decls.
      elem_type (fields' (append_fields decls cloud) ! k) = fst (decls ! k) \<and>
      name (fields' (append_fields decls cloud) ! k) = fst (snd (decls ! k)) \<and>
      count (fields' (append_fields decls cloud) ! k) = snd (snd (decls ! k)) \<and>
      offset (fields' (append_fields decls cloud) ! k) =
        point_step (append_fields (take k decls) cloud) \<and>
      offset (fields' (append_fields decls cloud) ! k) =
        sum_list (map field_bytes (take k (fields' (append_fields decls cloud))))) \<and>
   point_step (append_fields decls cloud) =
     sum_list (map field_bytes (fields' (append_fields decls cloud))) \<and>
   (sum_list (map field_nbytes (fields' (append_fields decls cloud))) < 2 ^ 32 \<longrightarrow>
      unat (point_step (append_fields decls cloud)) =
        sum_list (map field_nbytes (fields' (append_fields decls cloud))) \<and>
      (\<forall>k < length decls.
         unat (offset (fields' (append_fields decls cloud) ! k)) =
           sum_list (map field_nbytes (take k (fields' (append_fields decls cloud))))))"
proof -
  let ?c = "append_fields decls cloud"
  have fs: "fields' ?c = layout 0 decls" by (rule append_fields_fields)
  have len: "length (fields' ?c) = length decls" by (simp add: fs length_layout)
  have nth: "fields' ?c ! k = decl_field (sum_list (map decl_bytes (take k decls))) (decls ! k)"
    if "k < length decls" for k
    using layout_nth [OF that, of 0] by (simp add: fs)
  have bytes: "map field_bytes (fields' ?c) = map decl_bytes decls"
    by (simp add: fs map_field_bytes_layout)
  have off: "offset (fields' ?c ! k) = sum_list (map field_bytes (take k (fields' ?c)))"
    if "k < length decls" for k
  proof -
    have "map field_bytes (take k (fields' ?c)) = take k (map decl_bytes decls)"
      by (simp add: take_map [symmetric] bytes)
    then show ?thesis using nth [OF that]
      by (cases "decls ! k") (simp add: decl_field_def take_map)
  qed
  have part: "\<forall>k < length decls.
      elem_type (fields' ?c ! k) = fst (decls ! k) \<and>
      name (fields' ?c ! k) = fst (snd (decls ! k)) \<and>
      count (fields' ?c ! k) = snd (snd (decls ! k)) \<and>
      offset (fields' ?c ! k) = point_step (append_fields (take k decls) cloud) \<and>
      offset (fields' ?c ! k) = sum_list (map field_bytes (take k (fields' ?c)))"
  proof (intro allI impI)
    fix k assume k: "k < length decls"
    obtain T nm cnt where d: "decls ! k = (T, nm, cnt)" by (cases "decls ! k") auto
    show "elem_type (fields' ?c ! k) = fst (decls ! k) \<and>
      name (fields' ?c ! k) = fst (snd (decls ! k)) \<and>
      count (fields' ?c ! k) = snd (snd (decls ! k)) \<and>
      offset (fields' ?c ! k) = point_step (append_fields (take k decls) cloud) \<and>
      offset (fields' ?c ! k) = sum_list (map field_bytes (take k (fields' ?c)))"
      using nth [OF k] off [OF k] d
      by (simp add: decl_field_def append_fields_step)
  qed
  have total: "point_step ?c = sum_list (map field_bytes (fields' ?c))"
    by (simp add: append_fields_step bytes)
  have nat_part: "unat (point_step ?c) = sum_list (map field_nbytes (fields' ?c)) \<and>
      (\<forall>k < length decls.
         unat (offset (fields' ?c ! k)) = sum_list (map field_nbytes (take k (fields' ?c))))"
    if small: "sum_list (map field_nbytes (fields' ?c)) < 2 ^ 32"
  proof (intro conjI allI impI)
    show "unat (point_step ?c) = sum_list (map field_nbytes (fields' ?c))"
      using unat_sum_field_bytes [OF small] total by simp
  next
    fix k assume k: "k < length decls"
    have "sum_list (map field_nbytes (take k (fields' ?c))) < 2 ^ 32"
      using sum_list_take_le [of field_nbytes k "fields' ?c"] small by linarith
    from unat_sum_field_bytes [OF this] off [OF k]
    show "unat (offset (fields' ?c ! k)) = sum_list (map field_nbytes (take k (fields' ?c)))"
      by simp
  qed
  show ?thesis using len part total nat_part by blast
qed

theorem append_field_packing_witness:
  "(2::nat) < length position_decls \<and>
   offset (fields' (append_fields position_decls empty_cloud) ! 2) = 8 \<and>
   offset (fields' (append_fields position_decls empty_cloud) ! 2) =
     point_step (append_fields (take 2 position_decls) empty_cloud) \<and>
   sum_list (map field_nbytes (fields' (append_fields position_decls empty_cloud))) < 2 ^ 32 \<and>
   unat (point_step (append_fields position_decls empty_cloud)) = 12 \<and>
   append_fields position_decls empty_cloud = append_position_fields FLOAT32 (reset_fields empty_cloud)"
  using append_field_packing [of position_decls empty_cloud]
  by (simp add: position_decls_def empty_cloud_def append_fields_def append_field_def
      append_position_fields_def reset_fields_def field_nbytes_def)

text \<open>
  C2 (subset order). Let the source buffer satisfy its storage invariant, let its data
  and the output data be smaller than \<open>2^32\<close> bytes (the offsets are 32-bit products) and
  let there be fewer than \<open>2^31\<close> indices (the counter is an \<open>int\<close>). Then for every
  sequence of indices in \<open>[0, height * width)\<close>, in any order and with or without
  repetitions, \<^verbatim>\<open>copy_points\<close> returns an output buffer with height 1, width the number
  of indices, the header, fields, \<open>point_step\<close>, endianness and density flag of the source,
  and whose record \<open>k\<close> is byte for byte the source record \<open>indices[k]\<close>. With no index
  the output has no point and no data.
\<close>

theorem copy_points_select:
  assumes wf: "wf_cloud input"
    and small_in: "length (data input) < 2 ^ 32"
    and small_out: "length indices * unat (point_step input) < 2 ^ 32"
    and cnt: "length indices < 2 ^ 31"
    and inr: "\<forall>ix \<in> set indices. 0 \<le> ix \<and> nat ix < num_points input"
  shows "\<exists>out. copy_points input indices output = Inr out \<and>
           height out = 1 \<and> unat (width out) = length indices \<and>
           num_points out = length indices \<and>
           header out = header input \<and> fields' out = fields' input \<and>
           point_step out = point_step input \<and>
           is_bigendian out = is_bigendian input \<and> is_dense out = is_dense input \<and>
           row_step out = width out * point_step out \<and>
           length (data out) = length indices * unat (point_step input) \<and>
           (\<forall>k < length indices. point_record out k = point_record input (nat (indices ! k))) \<and>
           (indices = [] \<longrightarrow> data out = [])"
proof -
  let ?ps = "unat (point_step input)"
  let ?n = "length indices * ?ps"
  let ?out0 = "std_resize (data output) ?n"
  have len0: "length ?out0 = ?n" by (simp add: std_resize_def)
  have a1: "\<forall>ix \<in> set indices. 0 \<le> ix \<and> (nat ix + 1) * ?ps \<le> length (data input)"
    using inr in_range_bytes [OF wf] by blast
  have a3: "(0 + length indices) * ?ps \<le> length ?out0" using len0 by simp
  have a4: "(0 + length indices) * ?ps < 2 ^ 32" using small_out by simp
  from copy_loop_correct [OF a1 small_in a3 a4]
  obtain d where run: "copy_loop input (point_step input) indices 0 ?out0 = Inr d"
    and lend: "length d = length ?out0"
    and recs: "\<forall>k < length indices.
       take ?ps (drop (k * ?ps) d) = take ?ps (drop (nat (indices ! k) * ?ps) (data input))"
    by auto
  have w: "unat (word_of_nat (length indices) :: u32) = length indices"
    using cnt by (simp add: unat_of_nat)
  show ?thesis
    using run lend len0 recs w
    by (auto simp add: copy_points_def Let_def point_record_def num_points_def)
qed

theorem copy_points_select_witness:
  "wf_cloud row_cloud \<and> length (data row_cloud) < 2 ^ 32 \<and>
   length [2, 0 :: Index] * unat (point_step row_cloud) < 2 ^ 32 \<and>
   nat 2 < num_points row_cloud \<and> nat 0 < num_points row_cloud \<and>
   (\<exists>out. copy_points row_cloud [2, 0] empty_cloud = Inr out \<and>
      height out = 1 \<and> width out = 2 \<and> data out = [5, 6, 1, 2] \<and>
      point_record out 0 = point_record row_cloud 2 \<and>
      point_record out 1 = point_record row_cloud 0)"
  using copy_points_select [of row_cloud "[2, 0]" empty_cloud]
  by (simp add: row_cloud_def empty_cloud_def wf_cloud_def num_points_def copy_points_def
      std_resize_def std_copy_def point_record_def Let_def)

text \<open>
  C7 (no index check). \<^verbatim>\<open>copy_points\<close> does not fail with an error for an index at or
  beyond \<open>height * width\<close>: in a buffer with row padding it copies the bytes it finds
  there and returns.
\<close>

theorem copy_points_no_index_error:
  "wf_cloud padded_cloud \<and> num_points padded_cloud = 1 \<and>
   copy_points padded_cloud [1] empty_cloud =
     Inr (padded_cloud\<lparr>row_step := 1, data := [9]\<rparr>)"
  by (simp add: padded_cloud_def empty_cloud_def wf_cloud_def num_points_def copy_points_def
      std_resize_def std_copy_def Let_def)

text \<open>
  C7 as the code has it: \<^verbatim>\<open>copy_points\<close> compares no index with the point count
  \<open>height * width\<close>, which does not occur in what follows. For every sequence of
  non-negative indices below \<open>INT_MAX\<close> whose byte ranges
  \<open>[i * point_step, (i + 1) * point_step)\<close> lie inside the source data (fewer than
  \<open>2^31\<close> indices, source and output data below \<open>2^32\<close> bytes), it returns a one-row
  buffer with the schema of the source whose record \<open>k\<close> is byte for byte the range of
  \<open>indices[k]\<close>, whether that index is below the point count or not. Nothing is
  stated for a byte range that leaves the data: the read is unchecked.
\<close>

theorem copy_points_unchecked:
  assumes rng: "\<forall>ix \<in> set indices. 0 \<le> ix \<and> ix < 2 ^ 31 - 1 \<and>
                  (nat ix + 1) * unat (point_step input) \<le> length (data input)"
    and small_in: "length (data input) < 2 ^ 32"
    and small_out: "length indices * unat (point_step input) < 2 ^ 32"
    and cnt: "length indices < 2 ^ 31"
  shows "\<exists>out. copy_points input indices output = Inr out \<and>
           height out = 1 \<and> unat (width out) = length indices \<and>
           header out = header input \<and> fields' out = fields' input \<and>
           point_step out = point_step input \<and>
           is_bigendian out = is_bigendian input \<and> is_dense out = is_dense input \<and>
           row_step out = width out * point_step out \<and>
           length (data out) = length indices * unat (point_step input) \<and>
           (\<forall>k < length indices.
              point_record out k =
                take (unat (point_step input))
                  (drop (nat (indices ! k) * unat (point_step input)) (data input)))"
proof -
  let ?ps = "unat (point_step input)"
  let ?out0 = "std_resize (data output) (length indices * ?ps)"
  have len0: "length ?out0 = length indices * ?ps" by (simp add: std_resize_def)
  have a1: "\<forall>ix \<in> set indices. 0 \<le> ix \<and> (nat ix + 1) * ?ps \<le> length (data input)"
    using rng by blast
  have a3: "(0 + length indices) * ?ps \<le> length ?out0" using len0 by simp
  have a4: "(0 + length indices) * ?ps < 2 ^ 32" using small_out by simp
  from copy_loop_correct [OF a1 small_in a3 a4]
  obtain d where run: "copy_loop input (point_step input) indices 0 ?out0 = Inr d"
    and lend: "length d = length ?out0"
    and recs: "\<forall>k < length indices.
       take ?ps (drop (k * ?ps) d) = take ?ps (drop (nat (indices ! k) * ?ps) (data input))"
    by auto
  have w: "unat (word_of_nat (length indices) :: u32) = length indices"
    using cnt by (simp add: unat_of_nat)
  show ?thesis
    using run lend len0 recs w
    by (auto simp add: copy_points_def Let_def point_record_def)
qed

theorem copy_points_unchecked_witness:
  "num_points padded_cloud \<le> nat 1 \<and>
   (nat 1 + 1) * unat (point_step padded_cloud) \<le> length (data padded_cloud) \<and>
   (nat 0 + 1) * unat (point_step padded_cloud) \<le> length (data padded_cloud) \<and>
   length (data padded_cloud) < 2 ^ 32 \<and>
   length [1, 0 :: Index] * unat (point_step padded_cloud) < 2 ^ 32 \<and>
   (\<exists>out. copy_points padded_cloud [1, 0] empty_cloud = Inr out \<and>
      unat (width out) = 2 \<and> data out = [9, 7] \<and>
      point_record out 0 = [9] \<and> point_record out 1 = [7])"
proof -
  have h1: "(nat 1 + 1) * unat (point_step padded_cloud) \<le> length (data padded_cloud)"
    and h0: "(nat 0 + 1) * unat (point_step padded_cloud) \<le> length (data padded_cloud)"
    by (simp_all add: padded_cloud_def)
  have rng: "\<forall>ix \<in> set [1, 0 :: Index]. 0 \<le> ix \<and> ix < 2 ^ 31 - 1 \<and>
      (nat ix + 1) * unat (point_step padded_cloud) \<le> length (data padded_cloud)"
    using h1 h0 by simp
  have a: "length (data padded_cloud) < 2 ^ 32" by (simp add: padded_cloud_def)
  have b: "length [1, 0 :: Index] * unat (point_step padded_cloud) < 2 ^ 32"
    by (simp add: padded_cloud_def)
  have c: "length [1, 0 :: Index] < 2 ^ 31" by simp
  have n: "num_points padded_cloud \<le> nat 1" by (simp add: padded_cloud_def num_points_def)
  from copy_points_unchecked [OF rng a b c, of empty_cloud]
  obtain out where run: "copy_points padded_cloud [1, 0] empty_cloud = Inr out"
    by blast
  then have out: "out = padded_cloud\<lparr>width := 2, row_step := 2, data := [9, 7]\<rparr>"
    by (simp add: padded_copy)
  have r: "unat (width out) = 2" "data out = [9, 7]" "point_record out 0 = [9]" "point_record out 1 = [7]"
    by (simp_all add: out point_record_def padded_cloud_def)
  show ?thesis
    apply (intro conjI)
         apply (rule n)
        apply (rule h1)
       apply (rule h0)
      apply (rule a)
     apply (rule b)
    apply (rule exI [of _ out])
    apply (simp only: run r)
    done
qed

text \<open>
  C1 (median by step). Whenever \<^verbatim>\<open>fit_robust\<close> returns true, and \<^verbatim>\<open>std::sort\<close> does
  what it is specified to do, the azimuth candidate list and the elevation candidate
  list collected by the pair loop are not empty; the returned \<open>(azimuth_start,
  azimuth_step)\<close> is the element at position \<open>size / 2\<close> of the azimuth candidates
  after sorting, and the sorted list is a rearrangement of the candidates in which no
  later step is smaller than an earlier one; likewise for the elevation. The extent of
  the model is that of the buffer.
\<close>

theorem fit_robust_median:
  assumes "fit_robust X g cloud x_begin m = Inr (True, m')" and "sorts (std_sort X)"
  shows "\<exists>valid az_models el_models.
           collect_valid x_begin (n_points_of cloud) 0 [] = Inr valid \<and>
           pair_models X (width cloud) x_begin (g valid) [] [] = Inr (az_models, el_models) \<and>
           az_models \<noteq> [] \<and> el_models \<noteq> [] \<and>
           mset (std_sort X az_models) = mset az_models \<and>
           sorted_by_step (std_sort X az_models) \<and>
           (azimuth_start m', azimuth_step m') = std_sort X az_models ! (length az_models div 2) \<and>
           mset (std_sort X el_models) = mset el_models \<and>
           sorted_by_step (std_sort X el_models) \<and>
           (elevation_start m', elevation_step m') = std_sort X el_models ! (length el_models div 2) \<and>
           height' m' = height cloud \<and> width' m' = width cloud"
proof -
  from assms(1) have hw: "1 \<le> height cloud" "1 \<le> width cloud"
    by (auto simp: fit_robust_def split: if_splits)
  from assms(1) hw obtain valid where
    cv: "collect_valid x_begin (n_points_of cloud) 0 [] = Inr valid"
    by (cases "collect_valid x_begin (n_points_of cloud) 0 []") (simp_all add: fit_robust_def)
  from assms(1) hw cv obtain az el where
    pm: "pair_models X (width cloud) x_begin (g valid) [] [] = Inr (az, el)"
    by (cases "pair_models X (width cloud) x_begin (g valid) [] []") (auto simp: fit_robust_def)
  note u = fit_robust_unfold [where g = g and valid = valid and m = m, OF hw cv pm]
  from u assms(1) have ne: "az \<noteq> []" "el \<noteq> []" by (auto split: if_splits)
  from u assms(1) ne have m': "m' = m\<lparr>azimuth_start := fst (std_sort X az ! (length (std_sort X az) div 2)),
               azimuth_step := snd (std_sort X az ! (length (std_sort X az) div 2)),
               elevation_start := fst (std_sort X el ! (length (std_sort X el) div 2)),
               elevation_step := snd (std_sort X el ! (length (std_sort X el) div 2)),
               height' := height cloud, width' := width cloud\<rparr>"
    by simp
  have s: "mset (std_sort X xs) = mset xs" "sorted_by_step (std_sort X xs)" for xs
    using assms(2) by (simp_all add: sorts_def)
  have l: "length (std_sort X xs) = length xs" for xs
    using s(1) [of xs] by (rule mset_eq_length)
  show ?thesis
    by (rule exI [of _ valid], rule exI [of _ az], rule exI [of _ el])
       (simp add: cv pm ne m' s l)
qed

theorem fit_robust_median_witness:
  "fit_robust ideal_externals keep_order (grid 2 2) grid_points uncalibrated = Inr (True, fitted) \<and>
   sorts (std_sort ideal_externals) \<and>
   (\<exists>valid az_models el_models.
      collect_valid grid_points (n_points_of (grid 2 2)) 0 [] = Inr valid \<and>
      pair_models ideal_externals (width (grid 2 2)) grid_points (keep_order valid) [] [] =
        Inr (az_models, el_models) \<and>
      (Finite 0, Finite (pi / 4)) = std_sort ideal_externals az_models ! (length az_models div 2) \<and>
      (Finite 0, Finite (pi / 4)) = std_sort ideal_externals el_models ! (length el_models div 2))"
proof -
  have s: "sorts (std_sort ideal_externals)"
    using sorts_insertion_sort by (simp add: ideal_externals_def)
  have f: "fit_robust ideal_externals keep_order (grid 2 2) grid_points uncalibrated = Inr (True, fitted)"
    by (simp only: fit_robust_in_order fitted_def)
  have v: "azimuth_start fitted = Finite 0" "azimuth_step fitted = Finite (pi / 4)"
    "elevation_start fitted = Finite 0" "elevation_step fitted = Finite (pi / 4)"
    by (simp_all add: fitted_def)
  from fit_robust_median [OF f s]
  obtain valid az_models el_models where
    "collect_valid grid_points (n_points_of (grid 2 2)) 0 [] = Inr valid"
    "pair_models ideal_externals (width (grid 2 2)) grid_points (keep_order valid) [] [] =
        Inr (az_models, el_models)"
    "(azimuth_start fitted, azimuth_step fitted) =
        std_sort ideal_externals az_models ! (length az_models div 2)"
    "(elevation_start fitted, elevation_step fitted) =
        std_sort ideal_externals el_models ! (length el_models div 2)"
    by blast
  then have "\<exists>valid az_models el_models.
      collect_valid grid_points (n_points_of (grid 2 2)) 0 [] = Inr valid \<and>
      pair_models ideal_externals (width (grid 2 2)) grid_points (keep_order valid) [] [] =
        Inr (az_models, el_models) \<and>
      (Finite 0, Finite (pi / 4)) = std_sort ideal_externals az_models ! (length az_models div 2) \<and>
      (Finite 0, Finite (pi / 4)) = std_sort ideal_externals el_models ! (length el_models div 2)"
    unfolding v by blast
  with f s show ?thesis by (intro conjI)
qed

text \<open>
  C5 (when the fits return false). On a buffer the fits are meant for (\<open>fit_input\<close>),
  and for every rearrangement the shuffle may perform: \<^verbatim>\<open>fit_fast\<close> returns, and it
  returns false exactly when no point of the buffer is valid; \<^verbatim>\<open>fit_robust\<close> returns,
  and it returns false exactly when the azimuth candidate list or the elevation
  candidate list that the pair loop has collected is empty; and when every point has a
  NaN among its coordinates both return false (and the object they were given).
\<close>

theorem fit_returns_false_iff:
  assumes "fit_input cloud x_begin" "is_shuffle g"
  shows "(\<exists>b m'. fit_fast X cloud x_begin m = Inr (b, m') \<and>
            (b = False \<longleftrightarrow> \<not> (\<exists>i < num_points cloud. finite_point (x_begin ! i)))) \<and>
         (\<exists>valid az_models el_models b m'.
            collect_valid x_begin (n_points_of cloud) 0 [] = Inr valid \<and>
            pair_models X (width cloud) x_begin (g valid) [] [] = Inr (az_models, el_models) \<and>
            fit_robust X g cloud x_begin m = Inr (b, m') \<and>
            (b = False \<longleftrightarrow> az_models = [] \<or> el_models = [])) \<and>
         ((\<forall>i < num_points cloud. nan_point (x_begin ! i)) \<longrightarrow>
            fit_fast X cloud x_begin m = Inr (False, m) \<and>
            fit_robust X g cloud x_begin m = Inr (False, m))"
proof (intro conjI impI)
  show "\<exists>b m'. fit_fast X cloud x_begin m = Inr (b, m') \<and>
      (b = False \<longleftrightarrow> \<not> (\<exists>i < num_points cloud. finite_point (x_begin ! i)))"
  proof (cases "\<exists>k. valid_index x_begin (n_points_of cloud) k")
    case False
    then have "fit_fast X cloud x_begin m = Inr (False, m)"
      using fit_fast_none [OF assms(1)] by blast
    then show ?thesis using False exists_valid_index [OF assms(1)] by auto
  next
    case True
    then obtain k where "valid_index x_begin (n_points_of cloud) k" ..
    from fit_fast_some [OF assms(1) this, of X m]
    obtain m' where "fit_fast X cloud x_begin m = Inr (True, m')" by blast
    then show ?thesis using True exists_valid_index [OF assms(1)] by auto
  qed
next
  show "\<exists>valid az_models el_models b m'.
      collect_valid x_begin (n_points_of cloud) 0 [] = Inr valid \<and>
      pair_models X (width cloud) x_begin (g valid) [] [] = Inr (az_models, el_models) \<and>
      fit_robust X g cloud x_begin m = Inr (b, m') \<and>
      (b = False \<longleftrightarrow> az_models = [] \<or> el_models = [])"
    using fit_robust_outcome [OF assms, of X m] by blast
next
  assume nan: "\<forall>i < num_points cloud. nan_point (x_begin ! i)"
  have none: "\<forall>k. \<not> valid_index x_begin (n_points_of cloud) k"
    using nan nan_not_finite by (auto simp: valid_index_nat [OF assms(1)])
  show "fit_fast X cloud x_begin m = Inr (False, m)"
    by (rule fit_fast_none [OF assms(1) none])
  have len: "n_points_of cloud \<le> int (length x_begin)"
    using assms(1) n_points_of_eq [OF assms(1)] by (simp add: fit_input_def)
  have "g [] = []" using assms(2) by (metis is_shuffle_def mset_zero_iff)
  then show "fit_robust X g cloud x_begin m = Inr (False, m)"
    using assms(1) collect_valid_valid_indices [OF len] valid_indices_empty [OF none]
    by (simp add: fit_robust_def fit_input_def)
qed

theorem fit_returns_false_iff_witness:
  "fit_input (grid 2 2) nan_points \<and> is_shuffle keep_order \<and>
   list_all nan_point nan_points \<and> length nan_points = num_points (grid 2 2) \<and>
   fit_fast ideal_externals (grid 2 2) nan_points uncalibrated = Inr (False, uncalibrated) \<and>
   fit_robust ideal_externals keep_order (grid 2 2) nan_points uncalibrated = Inr (False, uncalibrated)"
proof -
  note t = fit_returns_false_iff [OF fit_input_nan is_shuffle_keep_order, of ideal_externals uncalibrated]
  from t have "(\<forall>i < num_points (grid 2 2). nan_point (nan_points ! i)) \<longrightarrow>
      fit_fast ideal_externals (grid 2 2) nan_points uncalibrated = Inr (False, uncalibrated) \<and>
      fit_robust ideal_externals keep_order (grid 2 2) nan_points uncalibrated = Inr (False, uncalibrated)"
    by (rule conjunct2 [THEN conjunct2])
  then have r: "fit_fast ideal_externals (grid 2 2) nan_points uncalibrated = Inr (False, uncalibrated) \<and>
      fit_robust ideal_externals keep_order (grid 2 2) nan_points uncalibrated = Inr (False, uncalibrated)"
    using all_nan by (rule mp)
  have l: "list_all nan_point nan_points" "length nan_points = num_points (grid 2 2)"
    by (simp_all add: nan_points_def nan_point_def grid_def num_points_def list_all_iff)
  show ?thesis
    by (intro conjI fit_input_nan is_shuffle_keep_order l r [THEN conjunct1] r [THEN conjunct2])
qed

text \<open>
  C6 (a failed fit changes nothing). Whenever \<^verbatim>\<open>fit_fast\<close> or \<^verbatim>\<open>fit_robust\<close> returns
  false, the object it returns with it is the object it was given: the six members
  hold the values they held before the call, whatever these were.
\<close>

theorem failed_fit_keeps_model:
  "(fit_fast X cloud x_begin m = Inr (False, m') \<longrightarrow> m' = m) \<and>
   (fit_robust X g cloud x_begin m = Inr (False, m') \<longrightarrow> m' = m)"
  by (auto simp: fit_fast_def fit_robust_def and_then_def Let_def
      split: sum.splits if_splits prod.splits)

theorem failed_fit_keeps_model_witness:
  "(\<exists>m'. fit_fast ideal_externals (grid 2 2) nan_points uncalibrated = Inr (False, m') \<and>
      m' = uncalibrated) \<and>
   (\<exists>m'. fit_robust ideal_externals keep_order (grid 2 2) nan_points uncalibrated = Inr (False, m') \<and>
      m' = uncalibrated)"
proof -
  obtain m1 where f: "fit_fast ideal_externals (grid 2 2) nan_points uncalibrated = Inr (False, m1)"
    using nan_fit_fast by blast
  obtain m2 where r: "fit_robust ideal_externals keep_order (grid 2 2) nan_points uncalibrated = Inr (False, m2)"
    using nan_fit_robust by blast
  from failed_fit_keeps_model [of ideal_externals "grid 2 2" nan_points uncalibrated m1 keep_order] f
  have e1: "m1 = uncalibrated" by (rule conjunct1 [THEN mp])
  from failed_fit_keeps_model [of ideal_externals "grid 2 2" nan_points uncalibrated m2 keep_order] r
  have e2: "m2 = uncalibrated" by (rule conjunct2 [THEN mp])
  from f e1 have a: "\<exists>m'. fit_fast ideal_externals (grid 2 2) nan_points uncalibrated = Inr (False, m') \<and>
      m' = uncalibrated" by blast
  from r e2 have b: "\<exists>m'. fit_robust ideal_externals keep_order (grid 2 2) nan_points uncalibrated = Inr (False, m') \<and>
      m' = uncalibrated" by blast
  from a b show ?thesis by (rule conjI)
qed

text \<open>
  C8 (check changes nothing). For every buffer whose extent is that of the model (the
  two \<^verbatim>\<open>assert\<close>s), with a position for every point and an extent that fits an
  \<open>Index\<close>, \<^verbatim>\<open>check\<close> returns true, returns the object it was given, with all six
  members as they were, and reports the mean residual: the residual sum of its loop
  divided by the number of residuals, at the level warning or debug.
\<close>

theorem check_returns_true:
  assumes "height' m = height cloud" "width' m = width cloud"
    and "length x_begin = num_points cloud"
    and "unat (height cloud) < 2 ^ 31" "unat (width cloud) < 2 ^ 31" "num_points cloud < 2 ^ 31"
  shows "\<exists>residual_sum n severity.
           check_loop X m x_begin (grid_cells (height cloud) (width cloud)) 0 (Finite 0, 0) =
             Inr (residual_sum, n) \<and>
           check X m cloud x_begin = Inr (True, m, severity, fdiv residual_sum (of_index n))"
proof -
  have "nat 0 + length (grid_cells (height cloud) (width cloud)) \<le> length x_begin"
    using assms(3) by (simp add: length_grid_cells num_points_def)
  from check_loop_ok [OF _ this, of X m "(Finite 0, 0)"]
  obtain s n where run: "check_loop X m x_begin (grid_cells (height cloud) (width cloud)) 0 (Finite 0, 0) = Inr (s, n)"
    by auto
  have "\<exists>severity. check X m cloud x_begin = Inr (True, m, severity, fdiv s (of_index n))"
    using run assms(1,2) by (simp add: check_def Let_def)
  with run show ?thesis by blast
qed

theorem check_returns_true_witness:
  "height' fitted = height (grid 2 2) \<and> width' fitted = width (grid 2 2) \<and>
   length grid_points = num_points (grid 2 2) \<and>
   unat (height (grid 2 2)) < 2 ^ 31 \<and> unat (width (grid 2 2)) < 2 ^ 31 \<and>
   num_points (grid 2 2) < 2 ^ 31 \<and>
   (\<exists>residual_sum n severity.
      check ideal_externals fitted (grid 2 2) grid_points =
        Inr (True, fitted, severity, fdiv residual_sum (of_index n)))"
proof -
  have a: "height' fitted = height (grid 2 2)" "width' fitted = width (grid 2 2)"
    by (simp_all add: fitted_def grid_def)
  have b: "length grid_points = num_points (grid 2 2)"
    by (simp add: grid_points_def grid_def num_points_def)
  have c: "unat (height (grid 2 2)) < 2 ^ 31" "unat (width (grid 2 2)) < 2 ^ 31"
    "num_points (grid 2 2) < 2 ^ 31"
    by (simp_all add: grid_def num_points_def)
  from check_returns_true [OF a b c, of ideal_externals]
  have r: "\<exists>residual_sum n severity.
      check ideal_externals fitted (grid 2 2) grid_points =
        Inr (True, fitted, severity, fdiv residual_sum (of_index n))"
    by blast
  show ?thesis by (intro conjI a b c r)
qed

text \<open>
  C9 (no injectable shuffle source). \<^verbatim>\<open>fit_robust\<close> takes the buffer only and seeds its
  generator inside the call, so two runs on the same buffer, from the same object, need
  not agree: with the four positions of \<open>grid_points\<close> in a 2 x 2 buffer, a run whose
  shuffle leaves the valid indices as they are and a run whose shuffle exchanges the
  two halves return different azimuth steps (a quarter and a half of \<open>pi\<close>).
\<close>

theorem fit_robust_not_reproducible:
  "is_shuffle keep_order \<and> is_shuffle swap_halves \<and>
   fit_robust ideal_externals keep_order (grid 2 2) grid_points uncalibrated \<noteq>
   fit_robust ideal_externals swap_halves (grid 2 2) grid_points uncalibrated"
proof -
  have "pi / 4 \<noteq> pi / 2" by simp
  then show ?thesis
    by (simp add: fit_robust_in_order fit_robust_swapped is_shuffle_keep_order is_shuffle_swap_halves)
qed

text \<open>
  C9 as the code has it: the result of \<^verbatim>\<open>fit_robust\<close> is determined by the buffer, the
  object and the order in which this call's shuffle leaves the valid indices. Two runs
  on the same buffer whose shuffles leave the valid indices in the same order return
  the same result; no parameter of the function fixes that order.
\<close>

theorem fit_robust_depends_on_order:
  assumes "collect_valid x_begin (n_points_of cloud) 0 [] = Inr valid" "g1 valid = g2 valid"
  shows "fit_robust X g1 cloud x_begin m = fit_robust X g2 cloud x_begin m"
  using assms by (simp add: fit_robust_def)

theorem fit_robust_depends_on_order_witness:
  "collect_valid grid_points (n_points_of (grid 2 2)) 0 [] = Inr [0, 1, 2, 3] \<and>
   keep_order [0, 1, 2, 3] = (swap_halves \<circ> swap_halves) [0, 1, 2, 3] \<and>
   fit_robust ideal_externals keep_order (grid 2 2) grid_points uncalibrated =
   fit_robust ideal_externals (swap_halves \<circ> swap_halves) (grid 2 2) grid_points uncalibrated"
proof -
  have e: "keep_order [0, 1, 2, 3] = (swap_halves \<circ> swap_halves) [0, 1, 2, 3]"
    by (simp add: keep_order_def swap_halves_def)
  from fit_robust_depends_on_order [where ?g1.0 = keep_order and ?g2.0 = "swap_halves \<circ> swap_halves",
      OF valid_grid e] valid_grid e
  show ?thesis by simp
qed

text \<open>
  C10 (degenerate extrema). On a buffer the fits are meant for that has a valid point,
  \<^verbatim>\<open>fit_fast\<close> returns true. If all valid points lie in one column, the azimuth step
  it has set is a quotient by the column difference 0 and is not finite (an infinity
  or a NaN); if all valid points lie in one row, the same holds of the elevation step.
\<close>

theorem fit_fast_degenerate:
  assumes "fit_input cloud x_begin" "\<exists>i < num_points cloud. finite_point (x_begin ! i)"
  shows "\<exists>m'. fit_fast X cloud x_begin m = Inr (True, m') \<and>
    ((\<forall>i j. i < num_points cloud \<and> j < num_points cloud \<and>
            finite_point (x_begin ! i) \<and> finite_point (x_begin ! j) \<longrightarrow>
            i mod unat (width cloud) = j mod unat (width cloud)) \<longrightarrow>
       (\<exists>a. azimuth_step m' = fdiv a (of_index 0)) \<and> \<not> isfinite (azimuth_step m')) \<and>
    ((\<forall>i j. i < num_points cloud \<and> j < num_points cloud \<and>
            finite_point (x_begin ! i) \<and> finite_point (x_begin ! j) \<longrightarrow>
            i div unat (width cloud) = j div unat (width cloud)) \<longrightarrow>
       (\<exists>a. elevation_step m' = fdiv a (of_index 0)) \<and> \<not> isfinite (elevation_step m'))"
proof -
  let ?w = "width cloud"
  from assms(2) exists_valid_index [OF assms(1)]
  obtain k where "valid_index x_begin (n_points_of cloud) k" by blast
  from fit_fast_some [OF assms(1) this, of X m]
  obtain e :: Extrema and m' el az where
    v: "valid_index x_begin (n_points_of cloud) (i_r0 e)" "valid_index x_begin (n_points_of cloud) (i_r1 e)"
       "valid_index x_begin (n_points_of cloud) (i_c0 e)" "valid_index x_begin (n_points_of cloud) (i_c1 e)"
    and fit: "fit_fast X cloud x_begin m = Inr (True, m')"
    and els: "elevation_step m' = fdiv el (of_index (sint (row_of ?w (i_r1 e)) - sint (row_of ?w (i_r0 e))))"
    and azs: "azimuth_step m' = fdiv az (of_index (sint (col_of ?w (i_c1 e)) - sint (col_of ?w (i_c0 e))))"
    by blast
  note b0 = valid_index_bounds [OF assms(1) v(1)]
  note b1 = valid_index_bounds [OF assms(1) v(2)]
  note b2 = valid_index_bounds [OF assms(1) v(3)]
  note b3 = valid_index_bounds [OF assms(1) v(4)]
  have col: "(\<exists>a. azimuth_step m' = fdiv a (of_index 0)) \<and> \<not> isfinite (azimuth_step m')"
    if same: "\<forall>i j. i < num_points cloud \<and> j < num_points cloud \<and>
            finite_point (x_begin ! i) \<and> finite_point (x_begin ! j) \<longrightarrow>
            i mod unat ?w = j mod unat ?w"
  proof -
    have "nat (i_c1 e) mod unat ?w = nat (i_c0 e) mod unat ?w"
      using same b2(3,4) b3(3,4) by blast
    then have "unat (col_of ?w (i_c1 e)) = unat (col_of ?w (i_c0 e))"
      using unat_col_of [OF b2(1,2), of ?w] unat_col_of [OF b3(1,2), of ?w] by simp
    then have "col_of ?w (i_c1 e) = col_of ?w (i_c0 e)" by (simp only: word_unat_eq_iff)
    then have z: "azimuth_step m' = fdiv az (of_index 0)" using azs by simp
    then show ?thesis using fdiv_zero [of az] by (auto simp: of_index_def)
  qed
  have row: "(\<exists>a. elevation_step m' = fdiv a (of_index 0)) \<and> \<not> isfinite (elevation_step m')"
    if same: "\<forall>i j. i < num_points cloud \<and> j < num_points cloud \<and>
            finite_point (x_begin ! i) \<and> finite_point (x_begin ! j) \<longrightarrow>
            i div unat ?w = j div unat ?w"
  proof -
    have "nat (i_r1 e) div unat ?w = nat (i_r0 e) div unat ?w"
      using same b0(3,4) b1(3,4) by blast
    then have "unat (row_of ?w (i_r1 e)) = unat (row_of ?w (i_r0 e))"
      using unat_row_of [OF b0(1,2), of ?w] unat_row_of [OF b1(1,2), of ?w] by simp
    then have "row_of ?w (i_r1 e) = row_of ?w (i_r0 e)" by (simp only: word_unat_eq_iff)
    then have z: "elevation_step m' = fdiv el (of_index 0)" using els by simp
    then show ?thesis using fdiv_zero [of el] by (auto simp: of_index_def)
  qed
  show ?thesis using fit col row by blast
qed

theorem fit_fast_degenerate_witness:
  "fit_input (grid 2 1) column_points \<and>
   (\<exists>i < num_points (grid 2 1). finite_point (column_points ! i)) \<and>
   (\<exists>m'. fit_fast ideal_externals (grid 2 1) column_points uncalibrated = Inr (True, m') \<and>
      \<not> isfinite (azimuth_step m')) \<and>
   fit_input (grid 1 2) column_points \<and>
   (\<exists>i < num_points (grid 1 2). finite_point (column_points ! i)) \<and>
   (\<exists>m'. fit_fast ideal_externals (grid 1 2) column_points uncalibrated = Inr (True, m') \<and>
      \<not> isfinite (elevation_step m'))"
proof -
  have c: "\<forall>i j. i < num_points (grid 2 1) \<and> j < num_points (grid 2 1) \<and>
            finite_point (column_points ! i) \<and> finite_point (column_points ! j) \<longrightarrow>
            i mod unat (width (grid 2 1)) = j mod unat (width (grid 2 1))"
    by (simp add: grid_def)
  have r: "\<forall>i j. i < num_points (grid 1 2) \<and> j < num_points (grid 1 2) \<and>
            finite_point (column_points ! i) \<and> finite_point (column_points ! j) \<longrightarrow>
            i div unat (width (grid 1 2)) = j div unat (width (grid 1 2))"
    by (simp add: grid_def num_points_def)
  from fit_fast_degenerate [OF fit_input_column(1) column_valid(1), of ideal_externals uncalibrated]
  obtain m1 where f1: "fit_fast ideal_externals (grid 2 1) column_points uncalibrated = Inr (True, m1)"
    and i1: "(\<forall>i j. i < num_points (grid 2 1) \<and> j < num_points (grid 2 1) \<and>
            finite_point (column_points ! i) \<and> finite_point (column_points ! j) \<longrightarrow>
            i mod unat (width (grid 2 1)) = j mod unat (width (grid 2 1))) \<longrightarrow>
       (\<exists>a. azimuth_step m1 = fdiv a (of_index 0)) \<and> \<not> isfinite (azimuth_step m1)"
    by blast
  from i1 c have n1: "\<not> isfinite (azimuth_step m1)" by (rule mp [THEN conjunct2])
  from fit_fast_degenerate [OF fit_input_column(2) column_valid(2), of ideal_externals uncalibrated]
  obtain m2 where f2: "fit_fast ideal_externals (grid 1 2) column_points uncalibrated = Inr (True, m2)"
    and i2: "(\<forall>i j. i < num_points (grid 1 2) \<and> j < num_points (grid 1 2) \<and>
            finite_point (column_points ! i) \<and> finite_point (column_points ! j) \<longrightarrow>
            i div unat (width (grid 1 2)) = j div unat (width (grid 1 2))) \<longrightarrow>
       (\<exists>a. elevation_step m2 = fdiv a (of_index 0)) \<and> \<not> isfinite (elevation_step m2)"
    by blast
  from i2 r have n2: "\<not> isfinite (elevation_step m2)" by (rule mp [THEN conjunct2])
  from f1 n1 have one: "\<exists>m'. fit_fast ideal_externals (grid 2 1) column_points uncalibrated = Inr (True, m') \<and>
      \<not> isfinite (azimuth_step m')" by blast
  from f2 n2 have two: "\<exists>m'. fit_fast ideal_externals (grid 1 2) column_points uncalibrated = Inr (True, m') \<and>
      \<not> isfinite (elevation_step m')" by blast
  show ?thesis
    by (intro conjI fit_input_column column_valid one two)
qed

end
